theory Spec2Isabelle
  imports Complex_Main "HOL-Library.Multiset"
begin

section \<open>Data model\<close>

text \<open>
  The backend is a set of Express route handlers over three Mongoose collections
  (elections, votes, users).  Each handler is embedded as a function from the request,
  the current time and the contents of the collections to a response and the new
  contents.  Object identifiers are kept in their 24-digit hexadecimal string form, a
  \<open>Date\<close> is its number of milliseconds since the epoch, and an error response is its
  HTTP status code together with the \<open>message\<close> field of its JSON body.
\<close>

type_synonym objid = string
type_synonym date = int

record reply =
  http_status :: nat
  message :: string

record candidate =
  cand_id :: objid
  cand_name :: string
  cand_party :: string
  cand_bio :: string

record election =
  election_id :: objid
  title :: string
  description :: string
  startDate :: date
  endDate :: date
  status :: string
  candidates :: "candidate list"
  createdBy :: objid
  createdAt :: date

record vote =
  vote_election :: objid
  vote_voter :: objid
  vote_candidate :: objid
  vote_timestamp :: date

record user =
  user_id :: objid
  fullName :: string
  email :: string
  voterID :: string
  password :: string
  age :: int
  phone :: "string option"
  role :: string
  isVerified :: bool
  isActive :: bool

record store =
  elections :: "election list"
  votes :: "vote list"
  users :: "user list"

subsection \<open>Object identifiers\<close>

text \<open>
  \<open>mongoose.Types.ObjectId.isValid\<close> on a string in the 24 hexadecimal digit form, which
  is how the clients and \<open>toString\<close> write an identifier (the library also takes any
  string of 12 characters for the 12 bytes; that form is left out).  Casting a string
  to an ObjectId forgets the case of the digits, and \<open>toString\<close> prints lower case.
\<close>

definition hex_digit :: "char \<Rightarrow> bool" where
  "hex_digit c \<longleftrightarrow> c \<in> set ''0123456789abcdefABCDEF''"

definition ObjectId_isValid :: "string \<Rightarrow> bool" where
  "ObjectId_isValid s \<longleftrightarrow> length s = 24 \<and> list_all hex_digit s"

definition hex_lower :: "char \<Rightarrow> char" where
  "hex_lower c =
     (if c = CHR ''A'' then CHR ''a'' else if c = CHR ''B'' then CHR ''b''
      else if c = CHR ''C'' then CHR ''c'' else if c = CHR ''D'' then CHR ''d''
      else if c = CHR ''E'' then CHR ''e'' else if c = CHR ''F'' then CHR ''f'' else c)"

definition ObjectId :: "string \<Rightarrow> objid" where
  "ObjectId s = map hex_lower s"

subsection \<open>Collection queries\<close>

definition Election_findById :: "string \<Rightarrow> store \<Rightarrow> election option" where
  "Election_findById eid s = find (\<lambda>e. election_id e = ObjectId eid) (elections s)"

definition Vote_findOne :: "string \<Rightarrow> objid \<Rightarrow> store \<Rightarrow> vote option" where
  "Vote_findOne eid uid s =
     find (\<lambda>v. vote_election v = ObjectId eid \<and> vote_voter v = uid) (votes s)"

definition Vote_find :: "string \<Rightarrow> store \<Rightarrow> vote list" where
  "Vote_find eid s = filter (\<lambda>v. vote_election v = ObjectId eid) (votes s)"

section \<open>Election lifecycle: status derived from the clock\<close>

text \<open>
  The status computation that \<open>GET /\<close> and \<open>GET /:id\<close> both carry inline (and the
  model's \<open>currentStatus\<close> virtual repeats): the stored status is read into the
  variable and then overwritten on every branch.
\<close>

definition currentStatus :: "date \<Rightarrow> date \<Rightarrow> date \<Rightarrow> string" where
  "currentStatus now start finish =
     (if now < start then ''upcoming''
      else if now > finish then ''completed''
      else ''active'')"






section \<open>Voting ledger\<close>

text \<open>
  \<open>POST /:id/vote\<close>.  The handler reads the collections (the election, then an existing
  vote of this voter), builds the Vote document and only then awaits \<open>vote.save()\<close>.
  It is embedded in these two phases: \<open>vote_checks\<close> is everything up to the constructed
  document, \<open>vote_commit\<close> is the save with the handler's \<open>catch\<close>.  Run one after the
  other on the same collections they are the handler; run as check, check, commit,
  commit they are two requests interleaved at the await.
\<close>

record vote_request =
  vr_election :: string
  vr_candidate :: string
  vr_user :: objid

definition vote_checks :: "date \<Rightarrow> vote_request \<Rightarrow> store \<Rightarrow> reply + vote" where
  "vote_checks now rq s =
     (if \<not> ObjectId_isValid (vr_election rq)
      then Inl \<lparr> http_status = 400, message = ''Invalid election ID format'' \<rparr>
      else if \<not> ObjectId_isValid (vr_candidate rq)
      then Inl \<lparr> http_status = 400, message = ''Invalid candidate ID format'' \<rparr>
      else case Election_findById (vr_election rq) s of
        None \<Rightarrow> Inl \<lparr> http_status = 404, message = ''Election not found'' \<rparr>
      | Some e \<Rightarrow>
          if now < startDate e \<or> now > endDate e
          then Inl \<lparr> http_status = 400, message = ''This election is not currently active'' \<rparr>
          else case find (\<lambda>c. cand_id c = vr_candidate rq) (candidates e) of
            None \<Rightarrow> Inl \<lparr> http_status = 400, message = ''Invalid candidate for this election'' \<rparr>
          | Some c \<Rightarrow>
              (case Vote_findOne (vr_election rq) (vr_user rq) s of
                 Some w \<Rightarrow>
                   Inl \<lparr> http_status = 400,
                         message = ''You have already voted in this election'' \<rparr>
               | None \<Rightarrow>
                   Inr \<lparr> vote_election = ObjectId (vr_election rq), vote_voter = vr_user rq,
                         vote_candidate = ObjectId (vr_candidate rq), vote_timestamp = now \<rparr>))"

text \<open>
  The collection's unique index on (election, voter), declared in the Vote model: the
  insert of a second document with the same pair fails with a duplicate-key error, and
  nothing is stored.
\<close>

datatype db_error = CastError | DuplicateKey | ValidationError string

definition Vote_save :: "vote \<Rightarrow> store \<Rightarrow> db_error + store" where
  "Vote_save v s =
     (if list_ex (\<lambda>w. vote_election w = vote_election v \<and> vote_voter w = vote_voter v) (votes s)
      then Inl DuplicateKey
      else Inr (s \<lparr> votes := votes s @ [v] \<rparr>))"

text \<open>The handler's \<open>catch\<close>: a cast error is a 400, everything else a 500.\<close>

definition vote_catch :: "db_error \<Rightarrow> reply" where
  "vote_catch err =
     (if err = CastError then \<lparr> http_status = 400, message = ''Invalid ID format'' \<rparr>
      else \<lparr> http_status = 500, message = ''Server error recording vote'' \<rparr>)"

definition vote_commit :: "vote \<Rightarrow> store \<Rightarrow> (reply + reply) \<times> store" where
  "vote_commit v s =
     (case Vote_save v s of
        Inl err \<Rightarrow> (Inl (vote_catch err), s)
      | Inr s' \<Rightarrow> (Inr \<lparr> http_status = 201, message = ''Vote recorded successfully'' \<rparr>, s'))"

definition cast_vote :: "date \<Rightarrow> vote_request \<Rightarrow> store \<Rightarrow> (reply + reply) \<times> store" where
  "cast_vote now rq s =
     (case vote_checks now rq s of
        Inl r \<Rightarrow> (Inl r, s)
      | Inr v \<Rightarrow> vote_commit v s)"

definition already_voted :: reply where
  "already_voted =
     \<lparr> http_status = 400, message = ''You have already voted in this election'' \<rparr>"

text \<open>No two stored votes share their (election, voter) pair.\<close>

definition one_vote_each :: "store \<Rightarrow> bool" where
  "one_vote_each s \<longleftrightarrow> distinct (map (\<lambda>v. (vote_election v, vote_voter v)) (votes s))"

section \<open>Tally\<close>

text \<open>
  \<open>GET /:id/results\<close>.  The \<open>Map\<close> from candidate identifier to count is a partial map;
  \<open>voteMap.get(k) || 0\<close> reads it.
\<close>

definition voteMap_get :: "(objid \<rightharpoonup> nat) \<Rightarrow> objid \<Rightarrow> nat" where
  "voteMap_get m k = (case m k of None \<Rightarrow> 0 | Some c \<Rightarrow> c)"

definition voteMap_count :: "vote \<Rightarrow> (objid \<rightharpoonup> nat) \<Rightarrow> (objid \<rightharpoonup> nat)" where
  "voteMap_count v m = m (vote_candidate v \<mapsto> voteMap_get m (vote_candidate v) + 1)"

definition voteMap :: "vote list \<Rightarrow> (objid \<rightharpoonup> nat)" where
  "voteMap vs = fold voteMap_count vs Map.empty"

subsection \<open>JavaScript numbers\<close>

text \<open>
  The percentage is computed in JavaScript numbers, which are IEEE-754 doubles: every
  operation returns the double nearest to the exact result, a tie going to the even
  significand.  A finite non-negative double is a pair \<open>(m, e)\<close> that stands for
  \<open>m * 2 ^ e\<close>.  The two operands of the division are a count of votes and the length
  of the array of votes; an array has fewer than \<open>2 ^ 32\<close> elements, so both are doubles
  as they are, and no result here leaves the exponent range of the doubles, which is
  therefore not modelled.
\<close>

type_synonym double = "nat \<times> int"

definition double_value :: "double \<Rightarrow> real" where
  "double_value x = real (fst x) * 2 ^ nat (snd x) / 2 ^ nat (- snd x)"

text \<open>The number of binary digits of a natural number.\<close>

fun bit_length :: "nat \<Rightarrow> nat" where
  "bit_length n = (if n = 0 then 0 else Suc (bit_length (n div 2)))"

declare bit_length.simps [simp del]

text \<open>
  The exponent \<open>k\<close> with \<open>2 ^ k \<le> n / d < 2 ^ (k + 1)\<close>, for positive \<open>n\<close> and \<open>d\<close>.
\<close>

definition binade :: "nat \<Rightarrow> nat \<Rightarrow> int" where
  "binade n d =
     (let k = int (bit_length n) - int (bit_length d)
      in if d * 2 ^ nat k \<le> n * 2 ^ nat (- k) then k else k - 1)"

text \<open>The integer nearest to \<open>n / d\<close>, the even one of two that are equally near.\<close>

definition round_half_even :: "nat \<Rightarrow> nat \<Rightarrow> nat" where
  "round_half_even n d =
     (let q = n div d; r = n mod d
      in if 2 * r < d then q
         else if 2 * r > d then q + 1
         else if even q then q else q + 1)"

text \<open>
  The double nearest to the quotient \<open>n / d\<close>: the quotient is scaled into the range of
  the significands of 53 binary digits and rounded there.
\<close>

definition nearest_double :: "nat \<Rightarrow> nat \<Rightarrow> double" where
  "nearest_double n d =
     (if n = 0 then (0, 0)
      else let e = binade n d - 52
           in (round_half_even (n * 2 ^ nat (- e)) (d * 2 ^ nat e), e))"

text \<open>\<open>a / b\<close> of two integers, and \<open>x * c\<close> of a double and an integer.\<close>

definition js_divide :: "nat \<Rightarrow> nat \<Rightarrow> double" where
  "js_divide a b = nearest_double a b"

definition js_multiply :: "double \<Rightarrow> nat \<Rightarrow> double" where
  "js_multiply x c = nearest_double (fst x * c * 2 ^ nat (snd x)) (2 ^ nat (- snd x))"

text \<open>\<open>totalVotes > 0 ? (votes / totalVotes) * 100 : 0\<close>, as the number it is.\<close>

definition percentage :: "nat \<Rightarrow> nat \<Rightarrow> real" where
  "percentage n totalVotes =
     (if totalVotes > 0 then double_value (js_multiply (js_divide n totalVotes) 100)
      else 0)"

subsection \<open>The result rows and the winners\<close>

record result_row =
  row_candidate :: candidate
  row_votes :: nat
  row_percentage :: real

definition result_of :: "nat \<Rightarrow> (objid \<rightharpoonup> nat) \<Rightarrow> candidate \<Rightarrow> result_row" where
  "result_of totalVotes m c =
     (let n = voteMap_get m (cand_id c)
      in \<lparr> row_candidate =
             \<lparr> cand_id = cand_id c, cand_name = cand_name c, cand_party = cand_party c,
               cand_bio = cand_bio c \<rparr>,
           row_votes = n,
           row_percentage = percentage n totalVotes \<rparr>)"

text \<open>
  \<open>Array.prototype.sort\<close> with the comparator \<open>b.votes - a.votes\<close>: a stable sort, the
  larger count first.
\<close>

definition sort_by_votes :: "result_row list \<Rightarrow> result_row list" where
  "sort_by_votes rs = sort_key (\<lambda>r. - int (row_votes r)) rs"

text \<open>\<open>Math.max\<close> of no arguments is \<open>-Infinity\<close>, which is \<open>None\<close> here.\<close>

fun Math_max :: "nat list \<Rightarrow> nat option" where
  "Math_max [] = None"
| "Math_max (x # xs) = Some (fold max xs x)"

record results_response =
  r_electionId :: objid
  r_title :: string
  r_description :: string
  totalVotes :: nat
  results :: "result_row list"
  winners :: "candidate list"
  isTie :: bool
  r_endDate :: date
  lastUpdated :: date

definition tally :: "date \<Rightarrow> election \<Rightarrow> vote list \<Rightarrow> results_response" where
  "tally now e vs =
     (let total = length vs;
          rows = sort_by_votes (map (result_of total (voteMap vs)) (candidates e));
          maxVotes = Math_max (map row_votes rows);
          ws = map row_candidate (filter (\<lambda>r. Some (row_votes r) = maxVotes) rows)
      in \<lparr> r_electionId = election_id e, r_title = title e, r_description = description e,
           totalVotes = total, results = rows, winners = ws, isTie = (length ws > 1),
           r_endDate = endDate e, lastUpdated = now \<rparr>)"

definition election_results :: "date \<Rightarrow> string \<Rightarrow> store \<Rightarrow> reply + results_response" where
  "election_results now eid s =
     (if \<not> ObjectId_isValid eid
      then Inl \<lparr> http_status = 400, message = ''Invalid election ID format'' \<rparr>
      else case Election_findById eid s of
        None \<Rightarrow> Inl \<lparr> http_status = 404, message = ''Election not found'' \<rparr>
      | Some e \<Rightarrow>
          if \<not> now > endDate e
          then Inl \<lparr> http_status = 403,
                     message = ''Results are not available until the election is complete'' \<rparr>
          else Inr (tally now e (Vote_find eid s)))"

text \<open>The number of stored votes of an election that name a candidate.\<close>

definition votes_for :: "vote list \<Rightarrow> objid \<Rightarrow> nat" where
  "votes_for vs k = length (filter (\<lambda>v. vote_candidate v = k) vs)"

section \<open>Deleting an election\<close>

text \<open>
  \<open>DELETE /:id\<close>.  \<open>Vote.deleteMany\<close> reports how many documents it removed.  The body
  of the success response is kept as the JSON object it is, a list of keys with their
  values.
\<close>

datatype json = JString string | JNumber nat

type_synonym json_object = "(string \<times> json) list"

definition Vote_deleteMany :: "string \<Rightarrow> store \<Rightarrow> nat \<times> store" where
  "Vote_deleteMany eid s =
     (length (filter (\<lambda>v. vote_election v = ObjectId eid) (votes s)),
      s \<lparr> votes := filter (\<lambda>v. vote_election v \<noteq> ObjectId eid) (votes s) \<rparr>)"

definition Election_findByIdAndDelete :: "string \<Rightarrow> store \<Rightarrow> election option \<times> store" where
  "Election_findByIdAndDelete eid s =
     (case Election_findById eid s of
        None \<Rightarrow> (None, s)
      | Some e \<Rightarrow> (Some e, s \<lparr> elections := remove1 e (elections s) \<rparr>))"

text \<open>
  The two deletions, one after the other: the number of removed votes, the collections
  after the votes are removed, the result of deleting the election (which the handler
  only logs) and the collections after that.
\<close>

definition delete_cascade :: "string \<Rightarrow> store \<Rightarrow> nat \<times> store \<times> election option \<times> store" where
  "delete_cascade eid s =
     (let (deletedCount, s1) = Vote_deleteMany eid s;
          (deleteResult, s2) = Election_findByIdAndDelete eid s1
      in (deletedCount, s1, deleteResult, s2))"

definition delete_election ::
  "date \<Rightarrow> string \<Rightarrow> store \<Rightarrow> (reply + json_object) \<times> store" where
  "delete_election now eid s =
     (if \<not> ObjectId_isValid eid
      then (Inl \<lparr> http_status = 400, message = ''Invalid election ID format'' \<rparr>, s)
      else case Election_findById eid s of
        None \<Rightarrow> (Inl \<lparr> http_status = 404, message = ''Election not found'' \<rparr>, s)
      | Some e \<Rightarrow>
          if now \<ge> startDate e \<and> now \<le> endDate e
          then (Inl \<lparr> http_status = 400, message = ''Cannot delete an active election'' \<rparr>, s)
          else if now > endDate e
          then (Inl \<lparr> http_status = 400, message = ''Cannot delete a completed election'' \<rparr>, s)
          else
            (case delete_cascade eid s of
               (deletedCount, s1, deleteResult, s2) \<Rightarrow>
                 (Inr [(''message'', JString ''Election deleted successfully''),
                       (''deletedElectionId'', JString eid),
                       (''deletedVotesCount'', JNumber deletedCount)], s2)))"

text \<open>The numbers that a JSON object carries, with their keys.\<close>

fun json_numbers :: "json_object \<Rightarrow> (string \<times> nat) list" where
  "json_numbers [] = []"
| "json_numbers ((k, JNumber n) # kvs) = (k, n) # json_numbers kvs"
| "json_numbers ((k, JString t) # kvs) = json_numbers kvs"

section \<open>Updating an election\<close>

text \<open>
  \<open>PUT /:id\<close>.  A date of the request body is absent, or a non-empty string that
  \<open>new Date\<close> cannot parse, or one that it parses to a time; \<open>new Date(undefined)\<close>
  is the invalid date, whose \<open>getTime()\<close> is \<open>NaN\<close>.
\<close>

datatype date_field = Omitted | Unparseable | Timestamp date

fun new_Date :: "date_field \<Rightarrow> date option" where
  "new_Date Omitted = None"
| "new_Date Unparseable = None"
| "new_Date (Timestamp t) = Some t"

text \<open>
  A candidate of the request body.  A text field that is missing is falsy like the
  empty string, so both are the empty string here; so is a missing \<open>_id\<close>.
\<close>

record candidate_input =
  in_id :: string
  in_name :: string
  in_party :: string
  in_bio :: string

record update_request =
  u_id :: string
  u_title :: "string option"
  u_description :: "string option"
  u_startDate :: date_field
  u_endDate :: date_field
  u_candidates :: "candidate_input list option"

text \<open>
  The loop over the candidates, which answers at the first one that lacks a field.
\<close>

definition candidate_incomplete :: "candidate_input \<Rightarrow> bool" where
  "candidate_incomplete c \<longleftrightarrow> in_name c = [] \<or> in_party c = [] \<or> in_bio c = []"

definition validate_candidates :: "candidate_input list \<Rightarrow> reply option" where
  "validate_candidates cs =
     (if length cs < 2
      then Some \<lparr> http_status = 400, message = ''At least two candidates are required'' \<rparr>
      else if list_ex candidate_incomplete cs
      then Some \<lparr> http_status = 400,
                  message = ''Each candidate must have name, party, and bio'' \<rparr>
      else None)"

text \<open>
  \<open>String.prototype.trim\<close>, which the schema asks for on the title and on a candidate's
  name and party.  A string is its UTF-8 bytes; the characters that \<open>trim\<close> removes from
  both ends are the white space and line terminators of the language: U+0009 to U+000D,
  U+0020, U+00A0, U+1680, U+2000 to U+200A, U+2028, U+2029, U+202F, U+205F, U+3000 and
  U+FEFF.
\<close>

definition white_spaces :: "string list" where
  "white_spaces =
     [[CHR 0x09], [CHR 0x0A], [CHR 0x0B], [CHR 0x0C], [CHR 0x0D], [CHR 0x20],
      [CHR 0xC2, CHR 0xA0],
      [CHR 0xE1, CHR 0x9A, CHR 0x80],
      [CHR 0xE2, CHR 0x80, CHR 0x80], [CHR 0xE2, CHR 0x80, CHR 0x81],
      [CHR 0xE2, CHR 0x80, CHR 0x82], [CHR 0xE2, CHR 0x80, CHR 0x83],
      [CHR 0xE2, CHR 0x80, CHR 0x84], [CHR 0xE2, CHR 0x80, CHR 0x85],
      [CHR 0xE2, CHR 0x80, CHR 0x86], [CHR 0xE2, CHR 0x80, CHR 0x87],
      [CHR 0xE2, CHR 0x80, CHR 0x88], [CHR 0xE2, CHR 0x80, CHR 0x89],
      [CHR 0xE2, CHR 0x80, CHR 0x8A],
      [CHR 0xE2, CHR 0x80, CHR 0xA8], [CHR 0xE2, CHR 0x80, CHR 0xA9],
      [CHR 0xE2, CHR 0x80, CHR 0xAF],
      [CHR 0xE2, CHR 0x81, CHR 0x9F],
      [CHR 0xE3, CHR 0x80, CHR 0x80],
      [CHR 0xEF, CHR 0xBB, CHR 0xBF]]"

text \<open>The first of the given byte sequences that the string starts with.\<close>

definition leading :: "string list \<Rightarrow> string \<Rightarrow> string option" where
  "leading ws t = find (\<lambda>w. w \<noteq> [] \<and> take (length w) t = w) ws"

function strip :: "string list \<Rightarrow> string \<Rightarrow> string" where
  "strip ws t = (case leading ws t of None \<Rightarrow> t | Some w \<Rightarrow> strip ws (drop (length w) t))"
  by pat_completeness auto
termination
proof (relation "measure (\<lambda>(ws, t). length t)")
  show "wf (measure (\<lambda>(ws, t). length t))"
    by simp
next
  fix ws :: "string list" and t w :: string
  assume "leading ws t = Some w"
  then have "w \<noteq> []" and "take (length w) t = w"
    by (auto simp: leading_def find_Some_iff)
  then have "t \<noteq> []"
    by auto
  with \<open>w \<noteq> []\<close> show "((ws, drop (length w) t), (ws, t)) \<in> measure (\<lambda>(ws, t). length t)"
    by simp
qed

declare strip.simps [simp del]

definition trim :: "string \<Rightarrow> string" where
  "trim t = rev (strip (map rev white_spaces) (rev (strip white_spaces t)))"

text \<open>
  The candidates of \<open>updateData\<close>: the identifier that came with the candidate, or else
  a new one.  \<open>gen i\<close> is the identifier that \<open>new mongoose.Types.ObjectId()\<close> returns
  for the candidate at position \<open>i\<close>.
\<close>

fun update_candidates :: "(nat \<Rightarrow> objid) \<Rightarrow> nat \<Rightarrow> candidate_input list \<Rightarrow> candidate list" where
  "update_candidates gen i [] = []"
| "update_candidates gen i (c # cs) =
     \<lparr> cand_id = (if in_id c \<noteq> [] then ObjectId (in_id c) else gen i),
       cand_name = trim (in_name c), cand_party = trim (in_party c), cand_bio = in_bio c \<rparr>
     # update_candidates gen (Suc i) cs"

text \<open>
  \<open>findByIdAndUpdate\<close> with \<open>$set: updateData\<close>.  A key of \<open>updateData\<close> whose value is
  \<open>undefined\<close> is not part of the update; an identifier that does not cast makes the
  call throw a cast error.
\<close>

record update_data =
  ud_title :: "string option"
  ud_description :: "string option"
  ud_startDate :: date
  ud_endDate :: date
  ud_candidates :: "candidate list option"

definition apply_update :: "update_data \<Rightarrow> election \<Rightarrow> election" where
  "apply_update d e =
     e \<lparr> title := (case ud_title d of None \<Rightarrow> title e | Some t \<Rightarrow> trim t),
         description := (case ud_description d of None \<Rightarrow> description e | Some t \<Rightarrow> t),
         startDate := ud_startDate d,
         endDate := ud_endDate d,
         candidates := (case ud_candidates d of None \<Rightarrow> candidates e | Some cs \<Rightarrow> cs) \<rparr>"

fun replace_election :: "objid \<Rightarrow> (election \<Rightarrow> election) \<Rightarrow> election list \<Rightarrow> election list" where
  "replace_election k f [] = []"
| "replace_election k f (e # es) =
     (if election_id e = k then f e # es else e # replace_election k f es)"

definition Election_findByIdAndUpdate ::
  "string \<Rightarrow> update_data \<Rightarrow> store \<Rightarrow> election option \<times> store" where
  "Election_findByIdAndUpdate eid d s =
     (let s' = s \<lparr> elections := replace_election (ObjectId eid) (apply_update d) (elections s) \<rparr>
      in (Election_findById eid s', s'))"

definition update_election ::
  "(nat \<Rightarrow> objid) \<Rightarrow> date \<Rightarrow> update_request \<Rightarrow> store \<Rightarrow> (reply + election) \<times> store" where
  "update_election gen now rq s =
     (if \<not> ObjectId_isValid (u_id rq)
      then (Inl \<lparr> http_status = 400, message = ''Invalid election ID format'' \<rparr>, s)
      else case Election_findById (u_id rq) s of
        None \<Rightarrow> (Inl \<lparr> http_status = 404, message = ''Election not found'' \<rparr>, s)
      | Some e \<Rightarrow>
          if now > endDate e
          then (Inl \<lparr> http_status = 400, message = ''Cannot update a completed election'' \<rparr>, s)
          else if now \<ge> startDate e \<and> now \<le> endDate e
          then (Inl \<lparr> http_status = 400, message = ''Cannot update an active election'' \<rparr>, s)
          else case (new_Date (u_startDate rq), new_Date (u_endDate rq)) of
            (Some start, Some finish) \<Rightarrow>
              if finish \<le> start
              then (Inl \<lparr> http_status = 400,
                          message = ''End date must be after start date'' \<rparr>, s)
              else (case (case u_candidates rq of None \<Rightarrow> None
                          | Some cs \<Rightarrow> validate_candidates cs) of
                      Some r \<Rightarrow> (Inl r, s)
                    | None \<Rightarrow>
                        if (case u_candidates rq of None \<Rightarrow> False
                            | Some cs \<Rightarrow>
                                list_ex (\<lambda>c. in_id c \<noteq> [] \<and> \<not> ObjectId_isValid (in_id c)) cs)
                        then (Inl \<lparr> http_status = 500,
                                    message = ''Server error updating election'' \<rparr>, s)
                        else
                          (case Election_findByIdAndUpdate (u_id rq)
                                  \<lparr> ud_title = u_title rq, ud_description = u_description rq,
                                    ud_startDate = start, ud_endDate = finish,
                                    ud_candidates =
                                      map_option (update_candidates gen 0) (u_candidates rq) \<rparr> s of
                             (Some e', s') \<Rightarrow> (Inr e', s')
                           | (None, s') \<Rightarrow>
                               (Inl \<lparr> http_status = 500,
                                      message = ''Server error updating election'' \<rparr>, s')))
          | _ \<Rightarrow> (Inl \<lparr> http_status = 400, message = ''Invalid date format'' \<rparr>, s))"

section \<open>Account registry\<close>

subsection \<open>The User model\<close>

text \<open>
  Modelled from the spec: the validation of the User schema (the model file
  \<open>models/User.js\<close> is not among the sources).  The spec: "Register: requires full name,
  email, voter identifier, password, age" and "Age \<ge> 18 and \<le> 120 enforced on
  registration and profile update".
\<close>

definition User_age_valid :: "int \<Rightarrow> bool" where
  "User_age_valid a \<longleftrightarrow> 18 \<le> a \<and> a \<le> 120"

record register_request =
  rg_fullName :: string
  rg_email :: string
  rg_voterID :: string
  rg_password :: string
  rg_age :: "int option"

text \<open>
  Modelled from the spec: what \<open>save()\<close> validates on a new User document (see
  \<open>User_age_valid\<close>); the error names the first path that fails.
\<close>

definition User_validate :: "register_request \<Rightarrow> db_error option" where
  "User_validate rq =
     (if rg_fullName rq = [] then Some (ValidationError ''fullName'')
      else if rg_email rq = [] then Some (ValidationError ''email'')
      else if rg_voterID rq = [] then Some (ValidationError ''voterID'')
      else if rg_password rq = [] then Some (ValidationError ''password'')
      else case rg_age rq of
        None \<Rightarrow> Some (ValidationError ''age'')
      | Some a \<Rightarrow> if User_age_valid a then None else Some (ValidationError ''age''))"

text \<open>
  Modelled from the spec: the document that \<open>new User({...})\<close> of the register handler
  becomes when it is saved.  The spec: "New accounts default active", "Stores password
  only after one-way salted hashing (delegated)"; the role of a registered account is
  voter.  \<open>hash\<close> is the delegated hashing and \<open>uid\<close> the identifier the document gets.
\<close>

definition new_User :: "(string \<Rightarrow> string) \<Rightarrow> objid \<Rightarrow> register_request \<Rightarrow> int \<Rightarrow> user" where
  "new_User hash uid rq a =
     \<lparr> user_id = uid, fullName = rg_fullName rq, email = rg_email rq,
       voterID = rg_voterID rq, password = hash (rg_password rq), age = a, phone = None,
       role = ''voter'', isVerified = True, isActive = True \<rparr>"

text \<open>
  Modelled from the spec: \<open>user.save()\<close> of a new document, which validates and then
  inserts under the unique indexes.  The spec: "email and voter identifier are each
  globally unique among users".
\<close>

definition User_save ::
  "(string \<Rightarrow> string) \<Rightarrow> objid \<Rightarrow> register_request \<Rightarrow> store \<Rightarrow> db_error + store" where
  "User_save hash uid rq s =
     (case User_validate rq of
        Some err \<Rightarrow> Inl err
      | None \<Rightarrow>
          (case rg_age rq of
             None \<Rightarrow> Inl (ValidationError ''age'')
           | Some a \<Rightarrow>
               if list_ex (\<lambda>u. email u = rg_email rq \<or> voterID u = rg_voterID rq) (users s)
               then Inl DuplicateKey
               else Inr (s \<lparr> users := users s @ [new_User hash uid rq a] \<rparr>)))"

definition User_findById :: "objid \<Rightarrow> store \<Rightarrow> user option" where
  "User_findById uid s = find (\<lambda>u. user_id u = uid) (users s)"

fun replace_user :: "objid \<Rightarrow> (user \<Rightarrow> user) \<Rightarrow> user list \<Rightarrow> user list" where
  "replace_user k f [] = []"
| "replace_user k f (u # us) =
     (if user_id u = k then f u # us else u # replace_user k f us)"

subsection \<open>Register and login\<close>

text \<open>\<open>POST /register\<close>.  Whatever \<open>save()\<close> throws, the \<open>catch\<close> answers 500.\<close>

definition register ::
  "(string \<Rightarrow> string) \<Rightarrow> objid \<Rightarrow> register_request \<Rightarrow> store \<Rightarrow> (reply + reply) \<times> store" where
  "register hash uid rq s =
     (if list_ex (\<lambda>u. email u = rg_email rq \<or> voterID u = rg_voterID rq) (users s)
      then (Inl \<lparr> http_status = 400,
                  message = ''User with this email or voter ID already exists'' \<rparr>, s)
      else case User_save hash uid rq s of
        Inl err \<Rightarrow>
          (Inl \<lparr> http_status = 500, message = ''Server error during registration'' \<rparr>, s)
      | Inr s' \<Rightarrow>
          (Inr \<lparr> http_status = 201,
                 message = ''Registration successful! Please check your email to verify your account.'' \<rparr>,
           s'))"





subsection \<open>Profile update\<close>

text \<open>
  \<open>PUT /profile\<close>.  A field that the body omits is \<open>None\<close>; it is \<open>undefined\<close> in the
  handler, matches no user in the query and is not part of the \<open>$set\<close>.  The handler's own
  age check is skipped by a falsy age (absent, or 0).
\<close>

record profile_request =
  p_fullName :: "string option"
  p_email :: "string option"
  p_phone :: "string option"
  p_age :: "int option"
  p_voterID :: "string option"

text \<open>The regular expression \<open>^\+?[1-9]\d{9,14}$\<close>.\<close>

definition phone_format :: "string \<Rightarrow> bool" where
  "phone_format p =
     (case (case p of [] \<Rightarrow> [] | c # r \<Rightarrow> if c = CHR ''+'' then r else p) of
        [] \<Rightarrow> False
      | d # ds \<Rightarrow> d \<in> set ''123456789'' \<and> 9 \<le> length ds \<and> length ds \<le> 14
                 \<and> list_all (\<lambda>c. c \<in> set ''0123456789'') ds)"

text \<open>
  Modelled from the spec: what \<open>runValidators: true\<close> validates on the paths of the
  \<open>$set\<close> (see \<open>User_age_valid\<close>).  The spec, of the profile update: "re-validates age
  range and phone format".
\<close>

definition User_update_validate :: "profile_request \<Rightarrow> db_error option" where
  "User_update_validate rq =
     (case p_age rq of
        None \<Rightarrow> None
      | Some a \<Rightarrow> if User_age_valid a then None else Some (ValidationError ''age''))"

definition apply_profile :: "profile_request \<Rightarrow> user \<Rightarrow> user" where
  "apply_profile rq u =
     u \<lparr> fullName := (case p_fullName rq of None \<Rightarrow> fullName u | Some x \<Rightarrow> x),
         email := (case p_email rq of None \<Rightarrow> email u | Some x \<Rightarrow> x),
         phone := (case p_phone rq of None \<Rightarrow> phone u | Some x \<Rightarrow> Some x),
         age := (case p_age rq of None \<Rightarrow> age u | Some a \<Rightarrow> a),
         voterID := (case p_voterID rq of None \<Rightarrow> voterID u | Some x \<Rightarrow> x) \<rparr>"

definition update_profile :: "objid \<Rightarrow> profile_request \<Rightarrow> store \<Rightarrow> (reply + user) \<times> store" where
  "update_profile uid rq s =
     (if (case p_age rq of None \<Rightarrow> False | Some a \<Rightarrow> a \<noteq> 0 \<and> (a < 18 \<or> a > 120))
      then (Inl \<lparr> http_status = 400, message = ''Age must be between 18 and 120'' \<rparr>, s)
      else if (case p_phone rq of None \<Rightarrow> False | Some p \<Rightarrow> p \<noteq> [] \<and> \<not> phone_format p)
      then (Inl \<lparr> http_status = 400, message = ''Invalid phone number format'' \<rparr>, s)
      else if list_ex (\<lambda>u. user_id u \<noteq> uid
                            \<and> (Some (email u) = p_email rq \<or> Some (voterID u) = p_voterID rq))
                (users s)
      then (Inl \<lparr> http_status = 400,
                  message = ''Email or Voter ID is already in use by another user'' \<rparr>, s)
      else case User_update_validate rq of
        Some (ValidationError m) \<Rightarrow> (Inl \<lparr> http_status = 400, message = m \<rparr>, s)
      | Some err \<Rightarrow>
          (Inl \<lparr> http_status = 500, message = ''Server error during profile update'' \<rparr>, s)
      | None \<Rightarrow>
          (case User_findById uid s of
             None \<Rightarrow> (Inl \<lparr> http_status = 404, message = ''User not found'' \<rparr>, s)
           | Some u \<Rightarrow>
               (Inr ((apply_profile rq u) \<lparr> password := [] \<rparr>),
                s \<lparr> users := replace_user uid (apply_profile rq) (users s) \<rparr>)))"

subsection \<open>Deactivation\<close>

text \<open>
  \<open>POST /deactivate\<close>: the caller's own account, \<open>uid\<close> being \<open>req.user.id\<close> of the
  verified token, whatever the role in it.
\<close>

definition deactivate_self :: "objid \<Rightarrow> store \<Rightarrow> (reply + reply) \<times> store" where
  "deactivate_self uid s =
     (case User_findById uid s of
        None \<Rightarrow> (Inl \<lparr> http_status = 404, message = ''User not found'' \<rparr>, s)
      | Some u \<Rightarrow>
          (Inr \<lparr> http_status = 200, message = ''Account has been Deleted successfully'' \<rparr>,
           s \<lparr> users := replace_user uid (\<lambda>u. u \<lparr> isActive := False \<rparr>) (users s) \<rparr>))"

text \<open>
  \<open>POST /voters/:id/deactivate\<close>, behind the admin check.  An identifier that does not
  cast makes \<open>findById\<close> throw, which the \<open>catch\<close> answers with 500.
\<close>

definition deactivate_voter :: "string \<Rightarrow> store \<Rightarrow> (reply + reply) \<times> store" where
  "deactivate_voter vid s =
     (if \<not> ObjectId_isValid vid
      then (Inl \<lparr> http_status = 500, message = ''Server error during voter delete'' \<rparr>, s)
      else case User_findById (ObjectId vid) s of
        None \<Rightarrow> (Inl \<lparr> http_status = 404, message = ''Voter not found'' \<rparr>, s)
      | Some voter \<Rightarrow>
          if role voter = ''admin''
          then (Inl \<lparr> http_status = 403, message = ''Cannot delete admin accounts'' \<rparr>, s)
          else
            (Inr \<lparr> http_status = 200, message = ''Voter deleted successfully'' \<rparr>,
             s \<lparr> users := replace_user (ObjectId vid) (\<lambda>u. u \<lparr> isActive := False \<rparr>) (users s) \<rparr>))"

section \<open>Creating an election\<close>

text \<open>
  \<open>POST /\<close>.  \<open>eid\<close> is the identifier the new document gets, \<open>admin\<close> is
  \<open>req.user.id\<close>.  The candidates are stored with their three text fields only, so each
  gets a new identifier.  \<open>save()\<close> validates against the schema: the required strings,
  after trimming where the schema trims, are not empty.
\<close>

record create_request =
  c_title :: string
  c_description :: string
  c_startDate :: date_field
  c_endDate :: date_field
  c_candidates :: "candidate_input list option"

definition Election_validate :: "election \<Rightarrow> db_error option" where
  "Election_validate e =
     (if title e = [] then Some (ValidationError ''title'')
      else if description e = [] then Some (ValidationError ''description'')
      else if list_ex (\<lambda>c. cand_name c = [] \<or> cand_party c = [] \<or> cand_bio c = []) (candidates e)
      then Some (ValidationError ''candidates'')
      else None)"

definition Election_save :: "election \<Rightarrow> store \<Rightarrow> db_error + store" where
  "Election_save e s =
     (case Election_validate e of
        Some err \<Rightarrow> Inl err
      | None \<Rightarrow> Inr (s \<lparr> elections := elections s @ [e] \<rparr>))"

definition create_election ::
  "(nat \<Rightarrow> objid) \<Rightarrow> objid \<Rightarrow> objid \<Rightarrow> date \<Rightarrow> create_request \<Rightarrow> store
     \<Rightarrow> (reply + election) \<times> store" where
  "create_election gen eid admin now rq s =
     (case c_candidates rq of
        None \<Rightarrow> (Inl \<lparr> http_status = 400, message = ''Missing required fields'' \<rparr>, s)
      | Some cs \<Rightarrow>
          if c_title rq = [] \<or> c_description rq = [] \<or> c_startDate rq = Omitted
             \<or> c_endDate rq = Omitted
          then (Inl \<lparr> http_status = 400, message = ''Missing required fields'' \<rparr>, s)
          else case validate_candidates cs of
            Some r \<Rightarrow> (Inl r, s)
          | None \<Rightarrow>
              (case (new_Date (c_startDate rq), new_Date (c_endDate rq)) of
                 (Some start, Some finish) \<Rightarrow>
                   if finish \<le> start
                   then (Inl \<lparr> http_status = 400,
                               message = ''End date must be after start date'' \<rparr>, s)
                   else
                     (let e = \<lparr> election_id = eid, title = trim (c_title rq),
                                description = c_description rq, startDate = start,
                                endDate = finish,
                                status = (if now > finish then ''completed''
                                          else if now \<ge> start then ''active''
                                          else ''upcoming''),
                                candidates =
                                  update_candidates gen 0 (map (\<lambda>c. c \<lparr> in_id := [] \<rparr>) cs),
                                createdBy = admin, createdAt = now \<rparr>
                      in case Election_save e s of
                           Inl (ValidationError m) \<Rightarrow>
                             (Inl \<lparr> http_status = 400, message = ''Validation error'' \<rparr>, s)
                         | Inl err \<Rightarrow>
                             (Inl \<lparr> http_status = 500,
                                    message = ''Server error while creating election'' \<rparr>, s)
                         | Inr s' \<Rightarrow> (Inr e, s'))
               | _ \<Rightarrow> (Inl \<lparr> http_status = 400, message = ''Invalid date format'' \<rparr>, s)))"

section \<open>Vocabulary of the properties\<close>

text \<open>Two votes of the same voter in the same election.\<close>

definition same_pair :: "vote \<Rightarrow> vote \<Rightarrow> bool" where
  "same_pair v w \<longleftrightarrow> vote_election w = vote_election v \<and> vote_voter w = vote_voter v"

text \<open>The responses that the properties name, as the handlers build them.\<close>

definition vote_recorded :: reply where
  "vote_recorded = \<lparr> http_status = 201, message = ''Vote recorded successfully'' \<rparr>"

definition server_error_vote :: reply where
  "server_error_vote = \<lparr> http_status = 500, message = ''Server error recording vote'' \<rparr>"

definition invalid_date_format :: reply where
  "invalid_date_format = \<lparr> http_status = 400, message = ''Invalid date format'' \<rparr>"



definition delete_conflict :: "reply \<Rightarrow> bool" where
  "delete_conflict r \<longleftrightarrow> http_status r = 400
     \<and> (message r = ''Cannot delete an active election''
        \<or> message r = ''Cannot delete a completed election'')"

definition update_conflict :: "reply \<Rightarrow> bool" where
  "update_conflict r \<longleftrightarrow> http_status r = 400
     \<and> (message r = ''Cannot update an active election''
        \<or> message r = ''Cannot update a completed election'')"

text \<open>
  The row of a candidate in terms of the stored votes: the count of the votes that name
  the candidate, and the percentage that the handler computes of it.
\<close>

definition tally_row :: "vote list \<Rightarrow> candidate \<Rightarrow> result_row" where
  "tally_row vs c =
     \<lparr> row_candidate = c, row_votes = votes_for vs (cand_id c),
       row_percentage = percentage (votes_for vs (cand_id c)) (length vs) \<rparr>"

text \<open>What Create and Update check of an election before they store it.\<close>

definition well_formed :: "election \<Rightarrow> bool" where
  "well_formed e \<longleftrightarrow> 2 \<le> length (candidates e) \<and> startDate e < endDate e"

section \<open>Sample data\<close>

text \<open>
  One election with two candidates, open from time 100 to time 200, with a stored status
  that nobody refreshed; three voters; an administrator and two voters, one of them
  deactivated.
\<close>

definition jane :: candidate where
  "jane = \<lparr> cand_id = ''64b000000000000000000c01'', cand_name = ''Jane Smith'',
            cand_party = ''Progressive Party'', cand_bio = ''Council member'' \<rparr>"

definition michael :: candidate where
  "michael = \<lparr> cand_id = ''64b000000000000000000c02'', cand_name = ''Michael Johnson'',
               cand_party = ''Civic Alliance'', cand_bio = ''Business owner'' \<rparr>"

definition mayor :: election where
  "mayor =
     \<lparr> election_id = ''64b000000000000000000a01'', title = ''City Mayor Election'',
       description = ''Vote for the next mayor'', startDate = 100, endDate = 200,
       status = ''upcoming'', candidates = [jane, michael],
       createdBy = ''64b000000000000000000d01'', createdAt = 50 \<rparr>"

definition ballot :: "objid \<Rightarrow> objid \<Rightarrow> vote" where
  "ballot voter cand =
     \<lparr> vote_election = ''64b000000000000000000a01'', vote_voter = voter,
       vote_candidate = cand, vote_timestamp = 150 \<rparr>"

definition admin_user :: user where
  "admin_user =
     \<lparr> user_id = ''64b000000000000000000d01'', fullName = ''Admin User'',
       email = ''admin@example.com'', voterID = ''ADMIN001'', password = ''#admin123'',
       age = 35, phone = None, role = ''admin'', isVerified = True, isActive = True \<rparr>"

definition john :: user where
  "john =
     \<lparr> user_id = ''64b000000000000000000e01'', fullName = ''John Doe'',
       email = ''john.doe@example.com'', voterID = ''VOT123456'', password = ''#password123'',
       age = 25, phone = None, role = ''voter'', isVerified = True, isActive = True \<rparr>"

definition robert :: user where
  "robert =
     \<lparr> user_id = ''64b000000000000000000e03'', fullName = ''Robert Wilson'',
       email = ''robert.wilson@example.com'', voterID = ''VOT789012'',
       password = ''#password123'', age = 65, phone = None, role = ''voter'',
       isVerified = True, isActive = False \<rparr>"

definition town :: store where
  "town = \<lparr> elections = [mayor], votes = [], users = [admin_user, john, robert] \<rparr>"

definition town_voted :: store where
  "town_voted =
     town \<lparr> votes := [ballot ''64b000000000000000000e01'' ''64b000000000000000000c02'',
                       ballot ''64b000000000000000000e02'' ''64b000000000000000000c01'',
                       ballot ''64b000000000000000000e03'' ''64b000000000000000000c02''] \<rparr>"

definition john_votes :: vote_request where
  "john_votes =
     \<lparr> vr_election = ''64b000000000000000000a01'', vr_candidate = ''64b000000000000000000c01'',
       vr_user = ''64b000000000000000000e01'' \<rparr>"

definition retitle :: update_request where
  "retitle =
     \<lparr> u_id = ''64b000000000000000000a01'', u_title = Some ''Mayor 2025'',
       u_description = None, u_startDate = Omitted, u_endDate = Omitted,
       u_candidates = None \<rparr>"

definition reschedule :: update_request where
  "reschedule =
     \<lparr> u_id = ''64b000000000000000000a01'', u_title = Some ''Mayor 2025'',
       u_description = None, u_startDate = Timestamp 300, u_endDate = Timestamp 400,
       u_candidates = None \<rparr>"

definition newcomer :: "int \<Rightarrow> register_request" where
  "newcomer a =
     \<lparr> rg_fullName = ''Test User'', rg_email = ''test@example.com'',
       rg_voterID = ''VOT000001'', rg_password = ''password123'', rg_age = Some a \<rparr>"

definition new_age :: "int \<Rightarrow> profile_request" where
  "new_age a =
     \<lparr> p_fullName = None, p_email = None, p_phone = None, p_age = Some a, p_voterID = None \<rparr>"

text \<open>A stand-in for the generator of new identifiers.\<close>

definition sample_gen :: "nat \<Rightarrow> objid" where
  "sample_gen i = ''64b000000000000000000f0'' @ [''0123456789abcdef'' ! (i mod 16)]"

text \<open>A stand-in for the delegated password hashing and comparison.\<close>

definition sample_hash :: "string \<Rightarrow> string" where
  "sample_hash p = CHR ''#'' # p"


section \<open>Evaluating the sample data\<close>

lemmas id_simps = ObjectId_isValid_def hex_digit_def ObjectId_def hex_lower_def

lemma mayor_found: "Election_findById ''64b000000000000000000a01'' town = Some mayor"
  by (simp add: Election_findById_def town_def id_simps) (simp add: mayor_def)

lemma mayor_found_voted: "Election_findById ''64b000000000000000000a01'' town_voted = Some mayor"
  by (simp add: Election_findById_def town_voted_def town_def id_simps) (simp add: mayor_def)

lemma mayor_id_valid: "ObjectId_isValid ''64b000000000000000000a01''"
  by (simp add: id_simps)

section \<open>Lookups\<close>


lemma find_None_ex: "find P xs = None \<longleftrightarrow> \<not> list_ex P xs"
  by (induction xs) auto


lemma find_replace_election:
  assumes "\<And>e. election_id (f e) = election_id e"
  shows "find (\<lambda>e. election_id e = k) (replace_election k f es)
           = map_option f (find (\<lambda>e. election_id e = k) es)"
  using assms by (induction es) auto

lemma set_replace_election: "set (replace_election k f es) \<subseteq> set es \<union> f ` set es"
  by (induction es) auto

lemma set_replace_user: "set (replace_user k f us) \<subseteq> set us \<union> f ` set us"
  by (induction us) auto



section \<open>Status on read\<close>










section \<open>One vote for each voter and election\<close>

lemma Vote_findOne_None:
  "Vote_findOne eid uid s = None
     \<longleftrightarrow> \<not> list_ex (\<lambda>w. vote_election w = ObjectId eid \<and> vote_voter w = uid) (votes s)"
  by (simp add: Vote_findOne_def find_None_ex)

lemma vote_checks_accepts:
  assumes "vote_checks now rq s = Inr v"
  shows "vote_election v = ObjectId (vr_election rq)" and "vote_voter v = vr_user rq"
    and "Vote_findOne (vr_election rq) (vr_user rq) s = None"
  using assms by (auto simp: vote_checks_def split: if_splits option.splits)

lemma vote_checks_unvoted:
  assumes "vote_checks now rq s = Inr v"
  shows "\<not> list_ex (same_pair v) (votes s)"
  using vote_checks_accepts [OF assms]
  by (simp add: Vote_findOne_None list_ex_iff same_pair_def)

text \<open>
  The checks read the votes only for the voter's own earlier vote: with other votes in
  the collection an accepted request is either still accepted or answered "already
  voted".
\<close>

lemma vote_checks_other_votes:
  assumes "vote_checks now rq s = Inr v"
  shows "vote_checks now rq (s \<lparr> votes := vs \<rparr>)
           = (if list_ex (same_pair v) vs then Inl already_voted else Inr v)"
proof -
  have pair: "same_pair v
                = (\<lambda>w. vote_election w = ObjectId (vr_election rq) \<and> vote_voter w = vr_user rq)"
    using vote_checks_accepts(1,2) [OF assms] by (simp add: same_pair_def fun_eq_iff)
  have found: "Vote_findOne (vr_election rq) (vr_user rq) (s \<lparr> votes := vs \<rparr>) = None
                 \<longleftrightarrow> \<not> list_ex (same_pair v) vs"
    by (simp add: Vote_findOne_None pair)
  show ?thesis
  proof (cases "list_ex (same_pair v) vs")
    case True
    then obtain w where
      "Vote_findOne (vr_election rq) (vr_user rq) (s \<lparr> votes := vs \<rparr>) = Some w"
      using found
      by (cases "Vote_findOne (vr_election rq) (vr_user rq) (s \<lparr> votes := vs \<rparr>)") auto
    with assms True show ?thesis
      by (auto simp: vote_checks_def Election_findById_def already_voted_def
               split: if_splits option.splits)
  next
    case False
    then have "Vote_findOne (vr_election rq) (vr_user rq) (s \<lparr> votes := vs \<rparr>) = None"
      using found by simp
    with assms False show ?thesis
      by (auto simp: vote_checks_def Election_findById_def split: if_splits option.splits)
  qed
qed

lemma Vote_save_duplicate:
  "list_ex (same_pair v) (votes s) \<Longrightarrow> Vote_save v s = Inl DuplicateKey"
  by (simp add: Vote_save_def same_pair_def list_ex_iff)

lemma Vote_save_fresh:
  "\<not> list_ex (same_pair v) (votes s)
     \<Longrightarrow> Vote_save v s = Inr (s \<lparr> votes := votes s @ [v] \<rparr>)"
  by (simp add: Vote_save_def same_pair_def list_ex_iff)

lemma vote_commit_duplicate:
  "list_ex (same_pair v) (votes s) \<Longrightarrow> vote_commit v s = (Inl server_error_vote, s)"
  by (simp add: vote_commit_def Vote_save_duplicate vote_catch_def server_error_vote_def)

lemma vote_commit_fresh:
  "\<not> list_ex (same_pair v) (votes s)
     \<Longrightarrow> vote_commit v s = (Inr vote_recorded, s \<lparr> votes := votes s @ [v] \<rparr>)"
  by (simp add: vote_commit_def Vote_save_fresh vote_recorded_def)

lemma vote_commit_one_vote_each:
  "one_vote_each s \<Longrightarrow> one_vote_each (snd (vote_commit v s))"
  by (cases "list_ex (same_pair v) (votes s)")
     (auto simp: vote_commit_duplicate vote_commit_fresh one_vote_each_def same_pair_def
        list_ex_iff)

lemma cast_vote_one_vote_each:
  "one_vote_each s \<Longrightarrow> one_vote_each (snd (cast_vote now rq s))"
  by (auto simp: cast_vote_def vote_commit_one_vote_each split: sum.splits)

lemma cast_vote_accepted:
  assumes "vote_checks now rq s = Inr v"
  shows "cast_vote now rq s = (Inr vote_recorded, s \<lparr> votes := votes s @ [v] \<rparr>)"
  using assms vote_checks_unvoted [OF assms] by (simp add: cast_vote_def vote_commit_fresh)

lemma cast_vote_again:
  assumes "vote_checks now rq (s \<lparr> votes := [] \<rparr>) = Inr v" and "list_ex (same_pair v) (votes s)"
  shows "cast_vote now rq s = (Inl already_voted, s)"
proof -
  have "vote_checks now rq (s \<lparr> votes := [], votes := votes s \<rparr>) = Inl already_voted"
    using vote_checks_other_votes [OF assms(1), of "votes s"] assms(2) by simp
  then show ?thesis
    by (simp add: cast_vote_def)
qed

lemma two_requests_one_voter:
  assumes "vote_checks t1 r1 s = Inr v1" and "vote_checks t2 r2 s = Inr v2"
    and "same_pair v1 v2"
  shows "cast_vote t1 r1 s = (Inr vote_recorded, s \<lparr> votes := votes s @ [v1] \<rparr>)"
    and "cast_vote t2 r2 (s \<lparr> votes := votes s @ [v1] \<rparr>)
           = (Inl already_voted, s \<lparr> votes := votes s @ [v1] \<rparr>)"
    and "vote_commit v1 s = (Inr vote_recorded, s \<lparr> votes := votes s @ [v1] \<rparr>)"
    and "vote_commit v2 (s \<lparr> votes := votes s @ [v1] \<rparr>)
           = (Inl server_error_vote, s \<lparr> votes := votes s @ [v1] \<rparr>)"
proof -
  have dup: "list_ex (same_pair v2) (votes s @ [v1])"
    using assms(3) by (simp add: same_pair_def)
  show "cast_vote t1 r1 s = (Inr vote_recorded, s \<lparr> votes := votes s @ [v1] \<rparr>)"
    by (rule cast_vote_accepted [OF assms(1)])
  show "vote_commit v1 s = (Inr vote_recorded, s \<lparr> votes := votes s @ [v1] \<rparr>)"
    by (rule vote_commit_fresh [OF vote_checks_unvoted [OF assms(1)]])
  have "vote_checks t2 r2 (s \<lparr> votes := votes s @ [v1] \<rparr>) = Inl already_voted"
    using vote_checks_other_votes [OF assms(2), of "votes s @ [v1]"] dup by simp
  then show "cast_vote t2 r2 (s \<lparr> votes := votes s @ [v1] \<rparr>)
           = (Inl already_voted, s \<lparr> votes := votes s @ [v1] \<rparr>)"
    by (simp add: cast_vote_def)
  show "vote_commit v2 (s \<lparr> votes := votes s @ [v1] \<rparr>)
           = (Inl server_error_vote, s \<lparr> votes := votes s @ [v1] \<rparr>)"
    using vote_commit_duplicate [of v2 "s \<lparr> votes := votes s @ [v1] \<rparr>"] dup by simp
qed

lemma john_accepted:
  "vote_checks 150 john_votes town
     = Inr (ballot ''64b000000000000000000e01'' ''64b000000000000000000c01'')"
  by (simp add: vote_checks_def john_votes_def mayor_id_valid mayor_found)
     (simp add: id_simps mayor_def jane_def ballot_def Vote_findOne_def town_def)

text \<open>
  C1, as stated, fails.  Two requests of the same voter for the same election both pass
  the checks on a collection without his vote.  The first save stores the vote; the second
  save fails on the unique index, and the handler answers it with the generic
  500 "Server error recording vote", which is not the "already voted" response.
\<close>

theorem concurrent_duplicate_is_server_error:
  "vote_checks 150 john_votes town
     = Inr (ballot ''64b000000000000000000e01'' ''64b000000000000000000c01'')
   \<and> vote_commit (ballot ''64b000000000000000000e01'' ''64b000000000000000000c01'') town
     = (Inr vote_recorded,
        town \<lparr> votes := [ballot ''64b000000000000000000e01'' ''64b000000000000000000c01''] \<rparr>)
   \<and> vote_commit (ballot ''64b000000000000000000e01'' ''64b000000000000000000c01'')
        (town \<lparr> votes := [ballot ''64b000000000000000000e01'' ''64b000000000000000000c01''] \<rparr>)
     = (Inl \<lparr> http_status = 500, message = ''Server error recording vote'' \<rparr>,
        town \<lparr> votes := [ballot ''64b000000000000000000e01'' ''64b000000000000000000c01''] \<rparr>)
   \<and> \<lparr> http_status = 500, message = ''Server error recording vote'' \<rparr> \<noteq> already_voted"
proof -
  have first: "vote_commit (ballot ''64b000000000000000000e01'' ''64b000000000000000000c01'') town
     = (Inr vote_recorded,
        town \<lparr> votes := [ballot ''64b000000000000000000e01'' ''64b000000000000000000c01''] \<rparr>)"
    by (simp add: vote_commit_def Vote_save_def vote_recorded_def town_def)
  have second: "vote_commit (ballot ''64b000000000000000000e01'' ''64b000000000000000000c01'')
        (town \<lparr> votes := [ballot ''64b000000000000000000e01'' ''64b000000000000000000c01''] \<rparr>)
     = (Inl \<lparr> http_status = 500, message = ''Server error recording vote'' \<rparr>,
        town \<lparr> votes := [ballot ''64b000000000000000000e01'' ''64b000000000000000000c01''] \<rparr>)"
    by (simp add: vote_commit_def Vote_save_def vote_catch_def)
  from john_accepted first second show ?thesis
    by (simp add: already_voted_def)
qed

text \<open>
  C1, amended.  A request that passes the other checks while a vote of its voter for its
  election is stored is answered "already voted", and nothing changes.  Of two requests
  of one voter for one election that would both be accepted on the current collection,
  the first is recorded; the second, run after it, is answered "already voted"; and when
  both passed their checks before either saved, the second save fails on the unique index
  and is answered with the generic 500, the collection keeping the first vote only.  No
  save ever leaves two votes of one voter in one election.
\<close>

theorem at_most_one_vote:
  "(vote_checks now rq (s \<lparr> votes := [] \<rparr>) = Inr v \<and> list_ex (same_pair v) (votes s)
      \<longrightarrow> cast_vote now rq s = (Inl already_voted, s))
   \<and> (vote_checks t1 r1 s = Inr v1 \<and> vote_checks t2 r2 s = Inr v2 \<and> same_pair v1 v2
      \<longrightarrow> cast_vote t1 r1 s = (Inr vote_recorded, s \<lparr> votes := votes s @ [v1] \<rparr>)
          \<and> cast_vote t2 r2 (s \<lparr> votes := votes s @ [v1] \<rparr>)
              = (Inl already_voted, s \<lparr> votes := votes s @ [v1] \<rparr>)
          \<and> vote_commit v1 s = (Inr vote_recorded, s \<lparr> votes := votes s @ [v1] \<rparr>)
          \<and> vote_commit v2 (s \<lparr> votes := votes s @ [v1] \<rparr>)
              = (Inl server_error_vote, s \<lparr> votes := votes s @ [v1] \<rparr>))
   \<and> (one_vote_each s
      \<longrightarrow> one_vote_each (snd (vote_commit w s)) \<and> one_vote_each (snd (cast_vote now rq s)))"
proof (intro conjI impI)
  assume "vote_checks now rq (s \<lparr> votes := [] \<rparr>) = Inr v \<and> list_ex (same_pair v) (votes s)"
  then show "cast_vote now rq s = (Inl already_voted, s)"
    using cast_vote_again by blast
next
  assume two: "vote_checks t1 r1 s = Inr v1 \<and> vote_checks t2 r2 s = Inr v2 \<and> same_pair v1 v2"
  then have c1: "vote_checks t1 r1 s = Inr v1" and c2: "vote_checks t2 r2 s = Inr v2"
    and p: "same_pair v1 v2"
    by simp_all
  show "cast_vote t1 r1 s = (Inr vote_recorded, s \<lparr> votes := votes s @ [v1] \<rparr>)"
    by (rule two_requests_one_voter(1) [OF c1 c2 p])
  show "cast_vote t2 r2 (s \<lparr> votes := votes s @ [v1] \<rparr>)
          = (Inl already_voted, s \<lparr> votes := votes s @ [v1] \<rparr>)"
    by (rule two_requests_one_voter(2) [OF c1 c2 p])
  show "vote_commit v1 s = (Inr vote_recorded, s \<lparr> votes := votes s @ [v1] \<rparr>)"
    by (rule two_requests_one_voter(3) [OF c1 c2 p])
  show "vote_commit v2 (s \<lparr> votes := votes s @ [v1] \<rparr>)
          = (Inl server_error_vote, s \<lparr> votes := votes s @ [v1] \<rparr>)"
    by (rule two_requests_one_voter(4) [OF c1 c2 p])
next
  assume "one_vote_each s"
  then show "one_vote_each (snd (vote_commit w s))"
    by (rule vote_commit_one_vote_each)
next
  assume "one_vote_each s"
  then show "one_vote_each (snd (cast_vote now rq s))"
    by (rule cast_vote_one_vote_each)
qed

theorem at_most_one_vote_witness:
  "cast_vote 150 john_votes
       (town \<lparr> votes := [ballot ''64b000000000000000000e01'' ''64b000000000000000000c02''] \<rparr>)
     = (Inl already_voted,
        town \<lparr> votes := [ballot ''64b000000000000000000e01'' ''64b000000000000000000c02''] \<rparr>)
   \<and> cast_vote 150 john_votes town
     = (Inr vote_recorded,
        town \<lparr> votes := [ballot ''64b000000000000000000e01'' ''64b000000000000000000c01''] \<rparr>)
   \<and> cast_vote 160 john_votes
        (town \<lparr> votes := [ballot ''64b000000000000000000e01'' ''64b000000000000000000c01''] \<rparr>)
     = (Inl already_voted,
        town \<lparr> votes := [ballot ''64b000000000000000000e01'' ''64b000000000000000000c01''] \<rparr>)
   \<and> vote_commit
        ((ballot ''64b000000000000000000e01'' ''64b000000000000000000c01'') \<lparr> vote_timestamp := 160 \<rparr>)
        (town \<lparr> votes := [ballot ''64b000000000000000000e01'' ''64b000000000000000000c01''] \<rparr>)
     = (Inl server_error_vote,
        town \<lparr> votes := [ballot ''64b000000000000000000e01'' ''64b000000000000000000c01''] \<rparr>)
   \<and> one_vote_each town
   \<and> one_vote_each (snd (cast_vote 150 john_votes town))"
proof -
  let ?v = "ballot ''64b000000000000000000e01'' ''64b000000000000000000c01''"
  let ?late = "?v \<lparr> vote_timestamp := 160 \<rparr>"
  let ?other = "ballot ''64b000000000000000000e01'' ''64b000000000000000000c02''"
  have later: "vote_checks 160 john_votes town = Inr ?late"
    by (simp add: vote_checks_def john_votes_def mayor_id_valid mayor_found)
       (simp add: id_simps mayor_def jane_def ballot_def Vote_findOne_def town_def)
  have empty: "town \<lparr> votes := [] \<rparr> = town" and none: "votes town = []"
    by (simp_all add: town_def)
  have before: "vote_checks 150 john_votes
                  (town \<lparr> votes := [?other], votes := [] \<rparr>) = Inr ?v"
    using john_accepted by (simp add: empty)
  have voted: "list_ex (same_pair ?v) (votes (town \<lparr> votes := [?other] \<rparr>))"
    by (simp add: same_pair_def ballot_def)
  have pair: "same_pair ?v ?late"
    by (simp add: same_pair_def)
  have one: "one_vote_each town"
    by (simp add: one_vote_each_def town_def)
  from at_most_one_vote [where now = 150 and rq = john_votes
      and s = "town \<lparr> votes := [?other] \<rparr>" and v = ?v
      and ?t1.0 = 150 and ?r1.0 = john_votes and ?v1.0 = ?v
      and ?t2.0 = 160 and ?r2.0 = john_votes and ?v2.0 = ?late and w = ?v]
    before voted
  have a: "cast_vote 150 john_votes (town \<lparr> votes := [?other] \<rparr>)
             = (Inl already_voted, town \<lparr> votes := [?other] \<rparr>)"
    by blast
  have app: "votes town @ [?v] = [?v]"
    by (simp add: none)
  from at_most_one_vote [where now = 150 and rq = john_votes and s = town and v = ?v
      and ?t1.0 = 150 and ?r1.0 = john_votes and ?v1.0 = ?v
      and ?t2.0 = 160 and ?r2.0 = john_votes and ?v2.0 = ?late and w = ?v, unfolded app]
    john_accepted later pair one
  have b: "cast_vote 150 john_votes town = (Inr vote_recorded, town \<lparr> votes := [?v] \<rparr>)
         \<and> cast_vote 160 john_votes (town \<lparr> votes := [?v] \<rparr>)
              = (Inl already_voted, town \<lparr> votes := [?v] \<rparr>)
         \<and> vote_commit ?late (town \<lparr> votes := [?v] \<rparr>)
              = (Inl server_error_vote, town \<lparr> votes := [?v] \<rparr>)
         \<and> one_vote_each (snd (cast_vote 150 john_votes town))"
    by blast
  from a b one show ?thesis
    by blast
qed

section \<open>Tally\<close>

lemma voteMap_get_fold:
  "voteMap_get (fold voteMap_count vs m) k = voteMap_get m k + votes_for vs k"
  by (induction vs arbitrary: m) (auto simp: voteMap_count_def voteMap_get_def votes_for_def)

lemma voteMap_get_voteMap: "voteMap_get (voteMap vs) k = votes_for vs k"
  by (simp add: voteMap_def voteMap_get_fold) (simp add: voteMap_get_def)

lemma votes_for_Nil: "votes_for [] k = 0"
  by (simp add: votes_for_def)

lemma result_of_tally_row: "result_of (length vs) (voteMap vs) = tally_row vs"
  by (simp add: fun_eq_iff result_of_def voteMap_get_voteMap Let_def tally_row_def)

lemma mset_sort_by_votes: "mset (sort_by_votes rs) = mset rs"
  by (simp add: sort_by_votes_def)

lemma set_sort_by_votes: "set (sort_by_votes rs) = set rs"
  by (simp add: sort_by_votes_def)

lemma sort_by_votes_descending:
  "sorted_wrt (\<lambda>a b. row_votes a \<ge> row_votes b) (sort_by_votes rs)"
proof -
  have "sorted (map (\<lambda>r. - int (row_votes r)) (sort_by_votes rs))"
    by (simp add: sort_by_votes_def)
  then show ?thesis
    by (simp add: sorted_map sorted_wrt_iff_nth_less)
qed

lemma Math_max_greatest:
  "Some n = Math_max xs \<longleftrightarrow> n \<in> set xs \<and> (\<forall>x \<in> set xs. x \<le> n)"
proof (cases xs)
  case Nil
  then show ?thesis by simp
next
  case (Cons y ys)
  have "fold max ys y = Max (set (y # ys))"
    using Max.set_eq_fold [of y ys] by simp
  with Cons show ?thesis
    by (metis List.finite_set Math_max.simps(2) Max_eqI Max_ge Max_in
          list.distinct(1) option.inject set_empty)
qed

lemma election_results_Inr:
  assumes "election_results now eid s = Inr R"
  shows "\<exists>e. Election_findById eid s = Some e \<and> now > endDate e
             \<and> R = tally now e (Vote_find eid s)"
  using assms by (auto simp: election_results_def split: if_splits option.splits)

lemma results_tally:
  "results (tally now e vs) = sort_by_votes (map (tally_row vs) (candidates e))"
  by (simp add: tally_def Let_def result_of_tally_row)

lemma totalVotes_tally: "totalVotes (tally now e vs) = length vs"
  by (simp add: tally_def Let_def)

lemma isTie_tally: "isTie (tally now e vs) = (length (winners (tally now e vs)) > 1)"
  by (simp add: tally_def Let_def)

lemma winners_tally:
  "winners (tally now e vs) =
     map row_candidate
       (filter (\<lambda>r. Some (row_votes r) = Math_max (map row_votes (results (tally now e vs))))
          (results (tally now e vs)))"
  by (simp add: tally_def Let_def)

lemma row_votes_results:
  "set (map row_votes (results (tally now e vs)))
     = (\<lambda>c. votes_for vs (cand_id c)) ` set (candidates e)"
  by (simp add: results_tally set_sort_by_votes image_image tally_row_def)

lemma winners_mset:
  "mset (winners (tally now e vs)) =
     filter_mset
       (\<lambda>k. \<forall>k' \<in> set (candidates e). votes_for vs (cand_id k') \<le> votes_for vs (cand_id k))
       (mset (candidates e))"
proof -
  let ?rows = "results (tally now e vs)"
  let ?top = "\<lambda>r. Some (row_votes r) = Math_max (map row_votes ?rows)"
  let ?best = "\<lambda>k. \<forall>k' \<in> set (candidates e).
                      votes_for vs (cand_id k') \<le> votes_for vs (cand_id k)"
  have top: "?top (tally_row vs k) \<longleftrightarrow> ?best k" if "k \<in> set (candidates e)" for k
    using that unfolding Math_max_greatest row_votes_results
    by (auto simp: tally_row_def)
  have "mset (winners (tally now e vs))
          = image_mset row_candidate (filter_mset ?top (mset ?rows))"
    by (subst winners_tally) simp
  also have "mset ?rows = image_mset (tally_row vs) (mset (candidates e))"
    by (simp add: results_tally mset_sort_by_votes)
  also have "filter_mset ?top (image_mset (tally_row vs) (mset (candidates e)))
               = image_mset (tally_row vs)
                   (filter_mset (\<lambda>k. ?top (tally_row vs k)) (mset (candidates e)))"
    by (rule filter_mset_image_mset)
  also have "filter_mset (\<lambda>k. ?top (tally_row vs k)) (mset (candidates e))
               = filter_mset ?best (mset (candidates e))"
    by (rule filter_mset_cong) (auto simp: top)
  finally show ?thesis
    by (simp add: multiset.map_comp comp_def tally_row_def)
qed

lemma mayor_results:
  "election_results 300 ''64b000000000000000000a01'' town = Inr (tally 300 mayor [])"
  by (simp add: election_results_def mayor_id_valid mayor_found)
     (simp add: mayor_def Vote_find_def town_def)

lemma mayor_results_voted:
  "election_results 300 ''64b000000000000000000a01'' town_voted
     = Inr (tally 300 mayor (votes town_voted))"
  by (simp add: election_results_def mayor_id_valid mayor_found_voted)
     (simp add: mayor_def Vote_find_def town_voted_def town_def id_simps ballot_def)

text \<open>
  C3.  When Compute results answers, the winners are, with their multiplicity in the
  candidate list, exactly the candidates of the election whose count of stored votes no
  other candidate of the election exceeds, and isTie says that there is more than one
  winner.  Without any vote every candidate is a winner, and isTie is true for an election
  with at least two candidates (which is every election that Create or Update stores).
\<close>

theorem winners_are_the_maxima:
  assumes "election_results now eid s = Inr R"
  shows "\<exists>e. Election_findById eid s = Some e
     \<and> mset (winners R) =
         filter_mset
           (\<lambda>k. \<forall>k' \<in> set (candidates e).
                   votes_for (Vote_find eid s) (cand_id k')
                     \<le> votes_for (Vote_find eid s) (cand_id k))
           (mset (candidates e))
     \<and> isTie R = (length (winners R) > 1)
     \<and> (totalVotes R = 0 \<longrightarrow>
           mset (winners R) = mset (candidates e)
           \<and> (2 \<le> length (candidates e) \<longrightarrow> isTie R))"
proof -
  from election_results_Inr [OF assms] obtain e where
    e: "Election_findById eid s = Some e" and R: "R = tally now e (Vote_find eid s)"
    by blast
  have zero: "mset (winners R) = mset (candidates e)" if "totalVotes R = 0"
    using that unfolding R by (simp add: winners_mset totalVotes_tally votes_for_Nil)
  have tie: "isTie R" if "totalVotes R = 0" and "2 \<le> length (candidates e)"
  proof -
    have "length (winners R) = length (candidates e)"
      using zero [OF that(1)] by (metis size_mset)
    with that(2) show ?thesis unfolding R by (simp add: isTie_tally)
  qed
  show ?thesis
    using e zero tie unfolding R by (auto simp: winners_mset isTie_tally)
qed

theorem winners_are_the_maxima_witness:
  "election_results 300 ''64b000000000000000000a01'' town = Inr (tally 300 mayor [])
   \<and> totalVotes (tally 300 mayor []) = 0
   \<and> mset (winners (tally 300 mayor [])) = {#jane, michael#}
   \<and> isTie (tally 300 mayor [])
   \<and> election_results 300 ''64b000000000000000000a01'' town_voted
       = Inr (tally 300 mayor (votes town_voted))
   \<and> mset (winners (tally 300 mayor (votes town_voted))) = {#michael#}
   \<and> \<not> isTie (tally 300 mayor (votes town_voted))"
proof -
  have cands: "candidates mayor = [jane, michael]"
    by (simp add: mayor_def)
  have total: "totalVotes (tally 300 mayor []) = 0"
    by (simp add: totalVotes_tally)
  from winners_are_the_maxima [OF mayor_results] obtain e where
    e: "Election_findById ''64b000000000000000000a01'' town = Some e" and
    z: "totalVotes (tally 300 mayor []) = 0 \<longrightarrow>
           mset (winners (tally 300 mayor [])) = mset (candidates e)
           \<and> (2 \<le> length (candidates e) \<longrightarrow> isTie (tally 300 mayor []))"
    by (elim exE conjE) (rule that)
  from e mayor_found have "e = mayor"
    by simp
  with z total cands
  have none: "mset (winners (tally 300 mayor [])) = {#jane, michael#} \<and> isTie (tally 300 mayor [])"
    by simp
  have counts: "votes_for (Vote_find ''64b000000000000000000a01'' town_voted) (cand_id jane) = 1"
    "votes_for (Vote_find ''64b000000000000000000a01'' town_voted) (cand_id michael) = 2"
    by (simp_all add: votes_for_def Vote_find_def town_voted_def town_def id_simps ballot_def
          jane_def michael_def)
  from winners_are_the_maxima [OF mayor_results_voted] obtain d where
    d: "Election_findById ''64b000000000000000000a01'' town_voted = Some d" and
    w: "mset (winners (tally 300 mayor (votes town_voted))) =
         filter_mset
           (\<lambda>k. \<forall>k' \<in> set (candidates d).
                   votes_for (Vote_find ''64b000000000000000000a01'' town_voted) (cand_id k')
                     \<le> votes_for (Vote_find ''64b000000000000000000a01'' town_voted) (cand_id k))
           (mset (candidates d))" and
    t: "isTie (tally 300 mayor (votes town_voted))
          = (length (winners (tally 300 mayor (votes town_voted))) > 1)"
    by (elim exE conjE) (rule that)
  from d mayor_found_voted have "d = mayor"
    by simp
  with w cands counts
  have some: "mset (winners (tally 300 mayor (votes town_voted))) = {#michael#}"
    by simp
  then have "size (mset (winners (tally 300 mayor (votes town_voted)))) = 1"
    by simp
  then have "length (winners (tally 300 mayor (votes town_voted))) = 1"
    by (simp only: size_mset)
  with t have "\<not> isTie (tally 300 mayor (votes town_voted))"
    by simp
  with some none mayor_results mayor_results_voted total show ?thesis
    by simp
qed

lemma bit_length_bounds:
  "n > 0 \<Longrightarrow> 2 ^ (bit_length n - 1) \<le> n \<and> n < 2 ^ bit_length n"
proof (induction n rule: bit_length.induct)
  case (1 n)
  show ?case
  proof (cases "n div 2 = 0")
    case True
    with "1.prems" have "n = 1" by (simp add: div_eq_0_iff) 
    then show ?thesis by (simp add: bit_length.simps)
  next
    case False
    with "1.IH" "1.prems" have ih: "2 ^ (bit_length (n div 2) - 1) \<le> n div 2"
      "n div 2 < 2 ^ bit_length (n div 2)"
      by auto
    have pos: "bit_length (n div 2) > 0"
      using False by (simp add: bit_length.simps [of "n div 2"])
    have eq: "bit_length n = Suc (bit_length (n div 2))"
      using "1.prems" by (simp add: bit_length.simps [of n])
    have "2 * 2 ^ (bit_length (n div 2) - 1) \<le> n"
      using ih(1) by linarith
    moreover have "(2::nat) * 2 ^ (bit_length (n div 2) - 1) = 2 ^ bit_length (n div 2)"
      using pos by (metis Suc_pred' power_Suc)
    moreover have "n < 2 * 2 ^ bit_length (n div 2)"
      using ih(2) by linarith
    ultimately show ?thesis
      by (simp add: eq)
  qed
qed

lemma bit_length_unique:
  assumes "2 ^ k \<le> n" and "n < 2 ^ Suc k"
  shows "bit_length n = Suc k"
proof -
  have n: "n > 0" using assms(1) by (metis less_le_trans zero_less_numeral zero_less_power)
  from bit_length_bounds [OF n] have lo: "2 ^ (bit_length n - 1) \<le> n" and hi: "n < 2 ^ bit_length n"
    by simp_all
  have "(2::nat) ^ k < 2 ^ bit_length n" using assms(1) hi by linarith
  then have a: "k < bit_length n" by (simp add: power_strict_increasing_iff)
  have "(2::nat) ^ (bit_length n - 1) < 2 ^ Suc k" using lo assms(2) by linarith
  then have "bit_length n - 1 < Suc k" by (simp only: power_strict_increasing_iff) 
  with a show ?thesis by linarith
qed

lemma bl2: "bit_length 2 = 2" "bit_length 3 = 2"
  using bit_length_unique [of 1 2] bit_length_unique [of 1 3] by simp_all

lemma two_thirds: "js_divide 2 3 = (6004799503160661, -53)"
  by (simp add: js_divide_def nearest_double_def binade_def bl2 round_half_even_def Let_def)

lemma bl_big: "bit_length 600479950316066100 = 60" "bit_length 9007199254740992 = 54"
  using bit_length_unique [of 59 600479950316066100] bit_length_unique [of 53 9007199254740992]
  by simp_all

lemma times_hundred: "js_multiply (6004799503160661, -53) 100 = (4691249611844266, -46)"
  by (simp add: js_multiply_def nearest_double_def binade_def bl_big round_half_even_def Let_def)

lemma two_of_three: "percentage 2 3 = 4691249611844266 / 70368744177664"
  by (simp add: percentage_def two_thirds times_hundred double_value_def)


lemma pow2_int: "(2::real) ^ nat k / 2 ^ nat (- k) = 2 powr real_of_int k"
proof (cases "k \<ge> 0")
  case True
  then show ?thesis by (simp add: powr_realpow [symmetric])
next
  case False
  then have neg: "real (nat (- k)) = - real_of_int k" by simp
  have "(2::real) ^ nat (- k) = 2 powr real (nat (- k))"
    by (simp add: powr_realpow)
  then have "(2::real) ^ nat (- k) = 2 powr (- real_of_int k)"
    by (simp only: neg)
  with False show ?thesis by (simp add: powr_minus_divide)
qed

lemma bit_length_real:
  assumes "n > 0"
  shows "2 powr (real (bit_length n) - 1) \<le> real n" and "real n < 2 powr real (bit_length n)"
proof -
  from bit_length_bounds [OF assms] have lo: "2 ^ (bit_length n - 1) \<le> n"
    and hi: "n < 2 ^ bit_length n" by simp_all
  have pos: "bit_length n > 0" using assms by (simp add: bit_length.simps [of n])
  have "real (2 ^ (bit_length n - 1)) \<le> real n" using lo by (simp only: of_nat_le_iff)
  moreover have "real (bit_length n - 1) = real (bit_length n) - 1" using pos by simp
  ultimately show "2 powr (real (bit_length n) - 1) \<le> real n"
    by (simp add: powr_realpow [symmetric])
  have "real n < real (2 ^ bit_length n)" using hi by (simp only: of_nat_less_iff)
  then show "real n < 2 powr real (bit_length n)"
    by (simp add: powr_realpow [symmetric])
qed

lemma binade_bounds:
  assumes "n > 0" and "d > 0"
  shows "2 powr real_of_int (binade n d) \<le> real n / real d"
    and "real n / real d < 2 powr (real_of_int (binade n d) + 1)"
proof -
  define k where "k = int (bit_length n) - int (bit_length d)"
  have rk: "real_of_int k = real (bit_length n) - real (bit_length d)"
    by (simp add: k_def)
  have dpos: "real d > 0" and npos: "real n > 0" using assms by simp_all
  note bn = bit_length_real [OF assms(1)] and bd = bit_length_real [OF assms(2)]
  have up: "real n / real d < 2 powr (real_of_int k + 1)"
  proof -
    have "real n / real d < 2 powr real (bit_length n) / real d"
      using bn(2) dpos by (simp add: divide_strict_right_mono)
    also have "\<dots> \<le> 2 powr real (bit_length n) / 2 powr (real (bit_length d) - 1)"
      using bd(1) by (simp add: frac_le)
    also have "\<dots> = 2 powr (real_of_int k + 1)"
      by (simp add: rk powr_diff [symmetric] algebra_simps)
    finally show ?thesis .
  qed
  have low: "2 powr (real_of_int k - 1) \<le> real n / real d"
  proof -
    have "2 powr (real_of_int k - 1) = 2 powr (real (bit_length n) - 1) / 2 powr real (bit_length d)"
      by (simp add: rk powr_diff [symmetric] algebra_simps)
    also have "\<dots> \<le> real n / 2 powr real (bit_length d)"
      using bn(1) by (simp add: divide_right_mono)
    also have "\<dots> \<le> real n / real d"
      using bd(2) dpos npos by (simp add: frac_le)
    finally show ?thesis .
  qed
  have cond: "d * 2 ^ nat k \<le> n * 2 ^ nat (- k) \<longleftrightarrow> 2 powr real_of_int k \<le> real n / real d"
  proof -
    have "d * 2 ^ nat k \<le> n * 2 ^ nat (- k)
            \<longleftrightarrow> real d * 2 ^ nat k \<le> real n * 2 ^ nat (- k)"
      by (metis (mono_tags) of_nat_le_iff of_nat_mult of_nat_numeral of_nat_power)
    also have "\<dots> \<longleftrightarrow> 2 ^ nat k / 2 ^ nat (- k) \<le> real n / real d"
      using dpos by (simp add: field_simps)
    finally show ?thesis by (simp add: pow2_int)
  qed
  show "2 powr real_of_int (binade n d) \<le> real n / real d"
    using low cond by (simp add: binade_def k_def [symmetric] Let_def)
  show "real n / real d < 2 powr (real_of_int (binade n d) + 1)"
    using up cond by (simp add: binade_def k_def [symmetric] Let_def not_le)
qed

lemma round_half_even_near:
  assumes "d > 0"
  shows "\<bar>real (round_half_even n d) - real n / real d\<bar> \<le> 1 / 2"
proof -
  define q r where "q = n div d" and "r = n mod d"
  have n: "real n = real q * real d + real r"
    unfolding q_def r_def by (metis div_mult_mod_eq of_nat_add of_nat_mult)
  have r: "real r < real d" unfolding r_def using assms by simp
  have dpos: "real d > 0" using assms by simp
  have frac: "real n / real d = real q + real r / real d"
    using dpos by (simp add: n field_simps)
  have half: "2 * r < d \<longleftrightarrow> real r / real d < 1 / 2" "2 * r > d \<longleftrightarrow> real r / real d > 1 / 2"
    using dpos by (auto simp: field_simps)
  have r0: "0 \<le> real r / real d" using dpos by simp
  consider "2 * r < d" | "2 * r > d" | "2 * r = d" by linarith
  then show ?thesis
  proof cases
    case 1
    then have "round_half_even n d = q"
      by (simp add: round_half_even_def Let_def q_def r_def)
    with 1 half(1) r0 show ?thesis by (simp add: frac)
  next
    case 2
    then have "round_half_even n d = q + 1"
      by (simp add: round_half_even_def Let_def q_def r_def)
    moreover have "real r / real d < 1" using r dpos by simp
    ultimately show ?thesis using 2 half(2) by (simp add: frac abs_if)
  next
    case 3
    then have f: "real r / real d = 1 / 2"
      using dpos by (simp add: field_simps)
    from 3 have "round_half_even n d = q \<or> round_half_even n d = q + 1"
      by (simp add: round_half_even_def Let_def q_def r_def)
    then show ?thesis
    proof
      assume "round_half_even n d = q"
      then show ?thesis unfolding frac f by simp
    next
      assume "round_half_even n d = q + 1"
      then show ?thesis unfolding frac f by simp
    qed
  qed
qed


lemma round_half_even_pos:
  assumes "d > 0" and "real n / real d \<ge> 1"
  shows "round_half_even n d > 0"
proof -
  have "\<bar>real (round_half_even n d) - real n / real d\<bar> \<le> 1 / 2"
    by (rule round_half_even_near [OF assms(1)])
  with assms(2) have "real (round_half_even n d) > 0" by linarith
  then show ?thesis by simp
qed

lemma double_value_powr: "double_value (m, e) = real m * 2 powr real_of_int e"
  by (simp add: double_value_def pow2_int [symmetric])

lemma nearest_double_near:
  assumes "n > 0" and "d > 0"
  shows "\<bar>double_value (nearest_double n d) - real n / real d\<bar> \<le> (real n / real d) / 2 ^ 53"
    and "fst (nearest_double n d) > 0"
proof -
  define e where "e = binade n d - 52"
  define x where "x = real n / real d"
  define N D where "N = n * 2 ^ nat (- e)" and "D = d * 2 ^ nat e"
  have Dpos: "D > 0" using assms(2) by (simp add: D_def)
  have pe: "2 powr real_of_int e > 0" by simp
  have sc: "real N / real D = x / 2 powr real_of_int e"
  proof -
    have "real N / real D = (real n / real d) / (2 ^ nat e / 2 ^ nat (- e))"
      by (simp add: N_def D_def)
    then show ?thesis by (simp add: pow2_int x_def)
  qed
  have lo: "2 powr real_of_int (binade n d) \<le> x"
    unfolding x_def by (rule binade_bounds(1) [OF assms])
  have split: "2 powr real_of_int (binade n d) = 2 powr real_of_int e * 2 ^ 52"
  proof -
    have "real_of_int (binade n d) = real_of_int e + 52" by (simp add: e_def)
    then have "2 powr real_of_int (binade n d) = 2 powr real_of_int e * 2 powr 52"
      by (simp add: powr_add)
    then show ?thesis by (simp add: powr_numeral)
  qed
  have big: "2 powr real_of_int e \<le> x / 2 ^ 52"
    using lo split by (simp add: field_simps)
  have nd: "nearest_double n d = (round_half_even N D, e)"
    using assms(1) by (simp add: nearest_double_def e_def N_def D_def Let_def)
  have near: "\<bar>real (round_half_even N D) - x / 2 powr real_of_int e\<bar> \<le> 1 / 2"
    using round_half_even_near [OF Dpos, of N] by (simp add: sc)
  have "\<bar>double_value (nearest_double n d) - x\<bar>
          = \<bar>real (round_half_even N D) - x / 2 powr real_of_int e\<bar> * 2 powr real_of_int e"
  proof -
    have "double_value (nearest_double n d) - x
            = (real (round_half_even N D) - x / 2 powr real_of_int e) * 2 powr real_of_int e"
      by (simp add: nd double_value_powr field_simps)
    then show ?thesis by (simp add: abs_mult)
  qed
  also have "\<dots> \<le> 1 / 2 * 2 powr real_of_int e"
    using near pe by (simp add: mult_right_mono)
  also have "\<dots> \<le> 1 / 2 * (x / 2 ^ 52)"
    using big by simp
  also have "\<dots> = x / 2 ^ 53" by simp
  finally show "\<bar>double_value (nearest_double n d) - real n / real d\<bar> \<le> (real n / real d) / 2 ^ 53"
    by (simp add: x_def)
  have "real N / real D \<ge> 1"
  proof -
    have "x / 2 powr real_of_int e \<ge> 2 ^ 52"
      using lo split pe by (simp add: field_simps)
    moreover have "(1::real) \<le> 2 ^ 52" by simp
    ultimately show ?thesis unfolding sc by linarith
  qed
  then have "round_half_even N D > 0"
    by (rule round_half_even_pos [OF Dpos])
  then show "fst (nearest_double n d) > 0" by (simp add: nd)
qed


lemma percentage_zero: "percentage 0 t = 0"
  by (simp add: percentage_def js_divide_def js_multiply_def nearest_double_def double_value_def)

lemma percentage_near:
  assumes "t > 0"
  shows "\<bar>percentage v t - real v / real t * 100\<bar> \<le> (real v / real t * 100) / 2 ^ 51"
proof (cases "v = 0")
  case True
  then show ?thesis by (simp add: percentage_zero)
next
  case False
  then have v: "v > 0" by simp
  define x where "x = real v / real t"
  obtain m e where q: "js_divide v t = (m, e)" by (cases "js_divide v t")
  define y where "y = double_value (m, e)"
  have x0: "x > 0" using v assms by (simp add: x_def)
  have y_near: "\<bar>y - x\<bar> \<le> x / 2 ^ 53" and m: "m > 0"
    using nearest_double_near [OF v assms] q by (simp_all add: js_divide_def y_def x_def)
  define N D where "N = m * 100 * 2 ^ nat e" and "D = (2::nat) ^ nat (- e)"
  have Npos: "N > 0" and Dpos: "D > 0" using m by (simp_all add: N_def D_def)
  have quot: "real N / real D = y * 100"
    by (simp add: N_def D_def y_def double_value_def)
  have p: "percentage v t = double_value (nearest_double N D)"
    using assms by (simp add: percentage_def q js_multiply_def N_def D_def)
  have p_near: "\<bar>percentage v t - y * 100\<bar> \<le> (y * 100) / 2 ^ 53"
    using nearest_double_near(1) [OF Npos Dpos] by (simp add: p quot)
  have y_up: "y \<le> x + x / 2 ^ 53" using y_near by linarith
  have "y * 100 - x * 100 = (y - x) * 100"
    by (simp add: algebra_simps)
  then have scale: "\<bar>y * 100 - x * 100\<bar> = \<bar>y - x\<bar> * 100"
    by (simp only: abs_mult)
  have "\<bar>percentage v t - x * 100\<bar> \<le> \<bar>percentage v t - y * 100\<bar> + \<bar>y * 100 - x * 100\<bar>"
    by linarith
  also have "\<dots> = \<bar>percentage v t - y * 100\<bar> + \<bar>y - x\<bar> * 100"
    by (simp only: scale)
  also have "\<dots> \<le> (y * 100) / 2 ^ 53 + x / 2 ^ 53 * 100"
  proof (rule add_mono)
    show "\<bar>percentage v t - y * 100\<bar> \<le> (y * 100) / 2 ^ 53" by (rule p_near)
    show "\<bar>y - x\<bar> * 100 \<le> x / 2 ^ 53 * 100"
      by (rule mult_right_mono [OF y_near]) simp
  qed
  also have "\<dots> \<le> ((x + x / 2 ^ 53) * 100) / 2 ^ 53 + x / 2 ^ 53 * 100"
    using y_up by (simp add: divide_right_mono)
  also have "\<dots> \<le> (x * 100) / 2 ^ 51"
    using x0 by (simp add: field_simps)
  finally show ?thesis by (simp add: x_def)
qed

lemma one_third: "js_divide (Suc 0) 3 = (6004799503160661, -54)"
proof -
  have "bit_length (Suc 0) = 1"
    using bit_length_unique [of 0 1] by simp
  then show ?thesis
    by (simp add: js_divide_def nearest_double_def binade_def bl2 round_half_even_def Let_def)
qed

lemma bl_bigger: "bit_length 18014398509481984 = 55"
  using bit_length_unique [of 54 18014398509481984] by simp

lemma third_times_hundred: "js_multiply (6004799503160661, -54) 100 = (4691249611844266, -47)"
  by (simp add: js_multiply_def nearest_double_def binade_def bl_big bl_bigger
        round_half_even_def Let_def)

lemma one_of_three: "percentage (Suc 0) 3 = 4691249611844266 / 140737488355328"
  by (simp add: percentage_def one_third third_times_hundred double_value_def)

lemma voted_rows:
  "results (tally 300 mayor (votes town_voted))
     = [\<lparr> row_candidate = michael, row_votes = 2,
           row_percentage = 4691249611844266 / 70368744177664 \<rparr>,
        \<lparr> row_candidate = jane, row_votes = 1,
           row_percentage = 4691249611844266 / 140737488355328 \<rparr>]"
proof -
  have cands: "candidates mayor = [jane, michael]"
    by (simp add: mayor_def)
  have counts: "votes_for (votes town_voted) (cand_id jane) = 1"
    "votes_for (votes town_voted) (cand_id michael) = 2" "length (votes town_voted) = 3"
    by (simp_all add: votes_for_def town_voted_def town_def ballot_def jane_def michael_def)
  show ?thesis
    by (simp add: results_tally cands tally_row_def counts sort_by_votes_def
          two_of_three one_of_three)
qed

text \<open>
  C4, as stated, fails in its percentages.  With three votes of which two are for one
  candidate, that candidate's percentage is the double 4691249611844266 / 2 ^ 46, which
  prints as 66.66666666666666; it is not 2 / 3 * 100.
\<close>

theorem percentage_is_rounded:
  "election_results 300 ''64b000000000000000000a01'' town_voted
     = Inr (tally 300 mayor (votes town_voted))
   \<and> totalVotes (tally 300 mayor (votes town_voted)) = 3
   \<and> results (tally 300 mayor (votes town_voted))
     = [\<lparr> row_candidate = michael, row_votes = 2,
           row_percentage = 4691249611844266 / 70368744177664 \<rparr>,
        \<lparr> row_candidate = jane, row_votes = 1,
           row_percentage = 4691249611844266 / 140737488355328 \<rparr>]
   \<and> (4691249611844266 / 70368744177664 :: real) \<noteq> 2 / 3 * 100"
proof -
  have "totalVotes (tally 300 mayor (votes town_voted)) = 3"
    by (simp add: totalVotes_tally town_voted_def town_def)
  with mayor_results_voted voted_rows show ?thesis
    by simp
qed

text \<open>
  C4, amended.  When Compute results answers, the rows are the candidates of the
  election, each once for each time it is in the candidate list and also when nobody
  voted for it; a row carries the number of stored votes of the election that name its
  candidate, and as percentage the double that \<open>(votes / totalVotes) * 100\<close> evaluates
  to (the quotient rounded to the nearest double, times 100, rounded again), which is
  within the 2 ^ 51-th part of the exact value, or 0 when there is no vote; and the rows
  are in descending order of their counts.
\<close>

theorem result_rows_complete_and_sorted:
  assumes "election_results now eid s = Inr R"
  shows "\<exists>e. Election_findById eid s = Some e
     \<and> mset (map row_candidate (results R)) = mset (candidates e)
     \<and> totalVotes R = length (Vote_find eid s)
     \<and> (\<forall>r \<in> set (results R).
           row_votes r = votes_for (Vote_find eid s) (cand_id (row_candidate r))
           \<and> row_percentage r =
               (if totalVotes R > 0
                then double_value (js_multiply (js_divide (row_votes r) (totalVotes R)) 100)
                else 0)
           \<and> (totalVotes R > 0 \<longrightarrow>
                 \<bar>row_percentage r - real (row_votes r) / real (totalVotes R) * 100\<bar>
                   \<le> (real (row_votes r) / real (totalVotes R) * 100) / 2 ^ 51))
     \<and> sorted_wrt (\<lambda>a b. row_votes a \<ge> row_votes b) (results R)"
proof -
  from election_results_Inr [OF assms] obtain e where
    e: "Election_findById eid s = Some e" and R: "R = tally now e (Vote_find eid s)"
    by blast
  have rows: "mset (map row_candidate (results R)) = mset (candidates e)"
    unfolding R
    by (simp add: results_tally mset_sort_by_votes multiset.map_comp comp_def tally_row_def)
  have each: "row_votes r = votes_for (Vote_find eid s) (cand_id (row_candidate r))
           \<and> row_percentage r = percentage (row_votes r) (totalVotes R)"
    if "r \<in> set (results R)" for r
    using that unfolding R
    by (auto simp: results_tally set_sort_by_votes totalVotes_tally tally_row_def)
  have pct: "percentage n t
                 = (if t > 0 then double_value (js_multiply (js_divide n t) 100) else 0)" for n t
    by (simp add: percentage_def)
  have sorted: "sorted_wrt (\<lambda>a b. row_votes a \<ge> row_votes b) (results R)"
    unfolding R by (simp add: results_tally sort_by_votes_descending)
  have total: "totalVotes R = length (Vote_find eid s)"
    unfolding R by (simp add: totalVotes_tally)
  have all: "\<forall>r \<in> set (results R).
           row_votes r = votes_for (Vote_find eid s) (cand_id (row_candidate r))
           \<and> row_percentage r =
               (if totalVotes R > 0
                then double_value (js_multiply (js_divide (row_votes r) (totalVotes R)) 100)
                else 0)
           \<and> (totalVotes R > 0 \<longrightarrow>
                 \<bar>row_percentage r - real (row_votes r) / real (totalVotes R) * 100\<bar>
                   \<le> (real (row_votes r) / real (totalVotes R) * 100) / 2 ^ 51)"
  proof (intro ballI conjI impI)
    fix r assume r: "r \<in> set (results R)"
    show "row_votes r = votes_for (Vote_find eid s) (cand_id (row_candidate r))"
      using each [OF r] by simp
    show "row_percentage r =
               (if totalVotes R > 0
                then double_value (js_multiply (js_divide (row_votes r) (totalVotes R)) 100)
                else 0)"
      using each [OF r] pct [of "row_votes r" "totalVotes R"] by simp
    assume "totalVotes R > 0"
    then show "\<bar>row_percentage r - real (row_votes r) / real (totalVotes R) * 100\<bar>
                   \<le> (real (row_votes r) / real (totalVotes R) * 100) / 2 ^ 51"
      using each [OF r] percentage_near [of "totalVotes R" "row_votes r"] by simp
  qed
  from e rows total all sorted show ?thesis
    by blast
qed

theorem result_rows_complete_and_sorted_witness:
  "election_results 300 ''64b000000000000000000a01'' town_voted
     = Inr (tally 300 mayor (votes town_voted))
   \<and> mset (map row_candidate (results (tally 300 mayor (votes town_voted)))) = {#jane, michael#}
   \<and> row_percentage (hd (results (tally 300 mayor (votes town_voted))))
       = 4691249611844266 / 70368744177664
   \<and> \<bar>4691249611844266 / 70368744177664 - 2 / 3 * 100\<bar> \<le> (2 / 3 * 100 :: real) / 2 ^ 51
   \<and> results (tally 300 mayor [])
     = [\<lparr> row_candidate = jane, row_votes = 0, row_percentage = 0 \<rparr>,
        \<lparr> row_candidate = michael, row_votes = 0, row_percentage = 0 \<rparr>]"
proof -
  have cands: "candidates mayor = [jane, michael]"
    by (simp add: mayor_def)
  have empty: "results (tally 300 mayor [])
     = [\<lparr> row_candidate = jane, row_votes = 0, row_percentage = 0 \<rparr>,
        \<lparr> row_candidate = michael, row_votes = 0, row_percentage = 0 \<rparr>]"
    by (simp add: results_tally cands tally_row_def votes_for_Nil sort_by_votes_def
          percentage_def)
  let ?top = "\<lparr> row_candidate = michael, row_votes = 2,
                  row_percentage = 4691249611844266 / 70368744177664 \<rparr>"
  from result_rows_complete_and_sorted [OF mayor_results_voted] obtain e where
    e: "Election_findById ''64b000000000000000000a01'' town_voted = Some e" and
    m: "mset (map row_candidate (results (tally 300 mayor (votes town_voted))))
          = mset (candidates e)" and
    t: "totalVotes (tally 300 mayor (votes town_voted))
          = length (Vote_find ''64b000000000000000000a01'' town_voted)" and
    b: "\<forall>r \<in> set (results (tally 300 mayor (votes town_voted))).
           row_votes r
             = votes_for (Vote_find ''64b000000000000000000a01'' town_voted)
                 (cand_id (row_candidate r))
           \<and> row_percentage r =
               (if totalVotes (tally 300 mayor (votes town_voted)) > 0
                then double_value (js_multiply (js_divide (row_votes r)
                       (totalVotes (tally 300 mayor (votes town_voted)))) 100)
                else 0)
           \<and> (totalVotes (tally 300 mayor (votes town_voted)) > 0 \<longrightarrow>
                 \<bar>row_percentage r
                    - real (row_votes r)
                      / real (totalVotes (tally 300 mayor (votes town_voted))) * 100\<bar>
                   \<le> (real (row_votes r)
                       / real (totalVotes (tally 300 mayor (votes town_voted))) * 100) / 2 ^ 51)"
    by (elim exE conjE) (rule that)
  from e mayor_found_voted have "e = mayor"
    by simp
  with m cands have rows: "mset (map row_candidate (results (tally 300 mayor (votes town_voted))))
          = {#jane, michael#}"
    by simp
  have three: "totalVotes (tally 300 mayor (votes town_voted)) = 3"
    by (simp add: totalVotes_tally town_voted_def town_def)
  have "?top \<in> set (results (tally 300 mayor (votes town_voted)))"
    by (simp add: voted_rows)
  with b three
  have "\<bar>row_percentage ?top - real (row_votes ?top) / real (3::nat) * 100\<bar>
          \<le> (real (row_votes ?top) / real (3::nat) * 100) / 2 ^ 51"
    by (metis zero_less_numeral)
  then have near: "\<bar>4691249611844266 / 70368744177664 - 2 / 3 * 100\<bar>
                     \<le> (2 / 3 * 100 :: real) / 2 ^ 51"
    by simp
  have first: "row_percentage (hd (results (tally 300 mayor (votes town_voted))))
       = 4691249611844266 / 70368744177664"
    by (simp add: voted_rows)
  from mayor_results_voted rows first near empty show ?thesis
    by blast
qed

section \<open>Deleting and updating only while upcoming\<close>

lemma delete_election_conflict:
  assumes "ObjectId_isValid eid" and "Election_findById eid s = Some e"
    and "(currentStatus now (startDate e) (endDate e) = ''active''
         \<or> currentStatus now (startDate e) (endDate e) = ''completed'')"
  shows "\<exists>r. delete_election now eid s = (Inl r, s) \<and> delete_conflict r"
  using assms
  by (auto simp: delete_election_def currentStatus_def delete_conflict_def split: if_splits)

lemma delete_cascade_steps:
  "delete_cascade eid s =
     (length (filter (\<lambda>v. vote_election v = ObjectId eid) (votes s)),
      s \<lparr> votes := filter (\<lambda>v. vote_election v \<noteq> ObjectId eid) (votes s) \<rparr>,
      Election_findById eid s,
      (case Election_findById eid s of
         None \<Rightarrow> s \<lparr> votes := filter (\<lambda>v. vote_election v \<noteq> ObjectId eid) (votes s) \<rparr>
       | Some e \<Rightarrow>
           s \<lparr> votes := filter (\<lambda>v. vote_election v \<noteq> ObjectId eid) (votes s),
               elections := remove1 e (elections s) \<rparr>))"
  by (simp add: delete_cascade_def Vote_deleteMany_def Election_findByIdAndDelete_def
        Election_findById_def split: option.splits)

lemma delete_election_success:
  assumes "delete_election now eid s = (Inr body, s')"
  shows "\<exists>e. Election_findById eid s = Some e
          \<and> currentStatus now (startDate e) (endDate e) = ''upcoming''
          \<and> delete_cascade eid s =
               (length (filter (\<lambda>v. vote_election v = ObjectId eid) (votes s)),
                s \<lparr> votes := filter (\<lambda>v. vote_election v \<noteq> ObjectId eid) (votes s) \<rparr>,
                Some e, s')
          \<and> votes s' = filter (\<lambda>v. vote_election v \<noteq> ObjectId eid) (votes s)
          \<and> elections s' = remove1 e (elections s)
          \<and> users s' = users s
          \<and> body = [(''message'', JString ''Election deleted successfully''),
                     (''deletedElectionId'', JString eid),
                     (''deletedVotesCount'',
                      JNumber (length (filter (\<lambda>v. vote_election v = ObjectId eid) (votes s))))]"
  using assms
  by (auto simp: delete_election_def currentStatus_def delete_cascade_steps
      split: if_splits option.splits)

lemma town_voted_deleted:
  "delete_election 50 ''64b000000000000000000a01'' town_voted
     = (Inr [(''message'', JString ''Election deleted successfully''),
             (''deletedElectionId'', JString ''64b000000000000000000a01''),
             (''deletedVotesCount'', JNumber 3)],
        town \<lparr> elections := [] \<rparr>)"
proof -
  have dates: "startDate mayor = 100" "endDate mayor = 200"
    by (simp_all add: mayor_def)
  have gone: "Vote_deleteMany ''64b000000000000000000a01'' town_voted = (3, town)"
    by (simp add: Vote_deleteMany_def town_voted_def town_def id_simps ballot_def)
  have cascade: "delete_cascade ''64b000000000000000000a01'' town_voted
                   = (3, town, Some mayor, town \<lparr> elections := [] \<rparr>)"
    by (simp add: delete_cascade_def gone Election_findByIdAndDelete_def mayor_found)
       (simp add: town_def)
  show ?thesis
    by (simp add: delete_election_def mayor_id_valid mayor_found_voted dates cascade)
qed

text \<open>
  C5, as stated, fails in what the response returns.  Deleting the upcoming election with
  its three votes removes one election and three votes; the body of the response has the
  three keys message, deletedElectionId and deletedVotesCount, and the only count in it
  is that of the votes.  The result of deleting the election is logged and not returned.
\<close>

theorem delete_response_counts_votes_only:
  "delete_election 50 ''64b000000000000000000a01'' town_voted
     = (Inr [(''message'', JString ''Election deleted successfully''),
             (''deletedElectionId'', JString ''64b000000000000000000a01''),
             (''deletedVotesCount'', JNumber 3)],
        town \<lparr> elections := [] \<rparr>)
   \<and> json_numbers [(''message'', JString ''Election deleted successfully''),
                    (''deletedElectionId'', JString ''64b000000000000000000a01''),
                    (''deletedVotesCount'', JNumber 3)]
     = [(''deletedVotesCount'', 3)]
   \<and> length (elections town_voted) = 1
   \<and> length (elections (town \<lparr> elections := [] \<rparr>)) = 0
   \<and> length (votes town_voted) = 3
   \<and> length (votes (town \<lparr> elections := [] \<rparr>)) = 0"
  using town_voted_deleted by (simp add: town_voted_def town_def)

text \<open>
  C5, amended.  Delete, asked for a stored election whose effective status is active or
  completed, answers with the 400 "Cannot delete an active election" or "Cannot delete a
  completed election" and changes nothing.  When it succeeds, the election was upcoming;
  first the votes of the election are removed, the election still being stored, then the
  election: no vote of the election is left, the votes of other elections and the users
  are as before.  The response gives the identifier of the deleted election and the
  number of votes that were removed, which is its only count.
\<close>

theorem delete_only_while_upcoming:
  "(ObjectId_isValid eid \<and> Election_findById eid s = Some e
      \<and> (currentStatus now (startDate e) (endDate e) = ''active''
         \<or> currentStatus now (startDate e) (endDate e) = ''completed'')
    \<longrightarrow> (\<exists>r. delete_election now eid s = (Inl r, s) \<and> delete_conflict r))
   \<and> (delete_election now eid s = (Inr body, s')
    \<longrightarrow> (\<exists>e. Election_findById eid s = Some e
          \<and> currentStatus now (startDate e) (endDate e) = ''upcoming''
          \<and> delete_cascade eid s =
               (length (filter (\<lambda>v. vote_election v = ObjectId eid) (votes s)),
                s \<lparr> votes := filter (\<lambda>v. vote_election v \<noteq> ObjectId eid) (votes s) \<rparr>,
                Some e, s')
          \<and> votes s' = filter (\<lambda>v. vote_election v \<noteq> ObjectId eid) (votes s)
          \<and> elections s' = remove1 e (elections s)
          \<and> users s' = users s
          \<and> body = [(''message'', JString ''Election deleted successfully''),
                     (''deletedElectionId'', JString eid),
                     (''deletedVotesCount'',
                      JNumber (length (filter (\<lambda>v. vote_election v = ObjectId eid) (votes s))))]
          \<and> json_numbers body
              = [(''deletedVotesCount'',
                  length (filter (\<lambda>v. vote_election v = ObjectId eid) (votes s)))]))"
proof (intro conjI impI)
  assume "ObjectId_isValid eid \<and> Election_findById eid s = Some e
      \<and> (currentStatus now (startDate e) (endDate e) = ''active''
         \<or> currentStatus now (startDate e) (endDate e) = ''completed'')"
  then show "\<exists>r. delete_election now eid s = (Inl r, s) \<and> delete_conflict r"
    using delete_election_conflict by blast
next
  assume "delete_election now eid s = (Inr body, s')"
  from delete_election_success [OF this] obtain e0 where
    found: "Election_findById eid s = Some e0" and
    up: "currentStatus now (startDate e0) (endDate e0) = ''upcoming''" and
    steps: "delete_cascade eid s =
               (length (filter (\<lambda>v. vote_election v = ObjectId eid) (votes s)),
                s \<lparr> votes := filter (\<lambda>v. vote_election v \<noteq> ObjectId eid) (votes s) \<rparr>,
                Some e0, s')" and
    rest: "votes s' = filter (\<lambda>v. vote_election v \<noteq> ObjectId eid) (votes s)"
      "elections s' = remove1 e0 (elections s)" "users s' = users s" and
    body: "body = [(''message'', JString ''Election deleted successfully''),
                     (''deletedElectionId'', JString eid),
                     (''deletedVotesCount'',
                      JNumber (length (filter (\<lambda>v. vote_election v = ObjectId eid) (votes s))))]"
    by (elim exE conjE) (rule that)
  have "json_numbers body
          = [(''deletedVotesCount'',
              length (filter (\<lambda>v. vote_election v = ObjectId eid) (votes s)))]"
    by (simp add: body)
  with found up steps rest body
  show "\<exists>e. Election_findById eid s = Some e
          \<and> currentStatus now (startDate e) (endDate e) = ''upcoming''
          \<and> delete_cascade eid s =
               (length (filter (\<lambda>v. vote_election v = ObjectId eid) (votes s)),
                s \<lparr> votes := filter (\<lambda>v. vote_election v \<noteq> ObjectId eid) (votes s) \<rparr>,
                Some e, s')
          \<and> votes s' = filter (\<lambda>v. vote_election v \<noteq> ObjectId eid) (votes s)
          \<and> elections s' = remove1 e (elections s)
          \<and> users s' = users s
          \<and> body = [(''message'', JString ''Election deleted successfully''),
                     (''deletedElectionId'', JString eid),
                     (''deletedVotesCount'',
                      JNumber (length (filter (\<lambda>v. vote_election v = ObjectId eid) (votes s))))]
          \<and> json_numbers body
              = [(''deletedVotesCount'',
                  length (filter (\<lambda>v. vote_election v = ObjectId eid) (votes s)))]"
    by blast
qed

theorem delete_only_while_upcoming_witness:
  "delete_election 150 ''64b000000000000000000a01'' town_voted
     = (Inl \<lparr> http_status = 400, message = ''Cannot delete an active election'' \<rparr>, town_voted)
   \<and> delete_election 300 ''64b000000000000000000a01'' town_voted
     = (Inl \<lparr> http_status = 400, message = ''Cannot delete a completed election'' \<rparr>, town_voted)
   \<and> delete_election 50 ''64b000000000000000000a01'' town_voted
     = (Inr [(''message'', JString ''Election deleted successfully''),
             (''deletedElectionId'', JString ''64b000000000000000000a01''),
             (''deletedVotesCount'', JNumber 3)],
        town \<lparr> elections := [] \<rparr>)
   \<and> currentStatus 50 (startDate mayor) (endDate mayor) = ''upcoming''
   \<and> currentStatus 150 (startDate mayor) (endDate mayor) = ''active''
   \<and> elections (fst (snd (delete_cascade ''64b000000000000000000a01'' town_voted))) = [mayor]
   \<and> votes (fst (snd (delete_cascade ''64b000000000000000000a01'' town_voted))) = []"
proof -
  have dates: "startDate mayor = 100" "endDate mayor = 200"
    by (simp_all add: mayor_def)
  have status: "currentStatus 150 (startDate mayor) (endDate mayor) = ''active''"
    by (simp add: currentStatus_def dates)
  have completed: "delete_election 300 ''64b000000000000000000a01'' town_voted
     = (Inl \<lparr> http_status = 400, message = ''Cannot delete a completed election'' \<rparr>, town_voted)"
    by (simp add: delete_election_def mayor_id_valid mayor_found_voted dates)
  have active: "delete_election 150 ''64b000000000000000000a01'' town_voted
     = (Inl \<lparr> http_status = 400, message = ''Cannot delete an active election'' \<rparr>, town_voted)"
    by (simp add: delete_election_def mayor_id_valid mayor_found_voted dates)
  note inst = delete_only_while_upcoming
         [where eid = "''64b000000000000000000a01''" and s = town_voted and e = mayor]
  from inst [where now = 150] mayor_id_valid mayor_found_voted status
  have "\<exists>r. delete_election 150 ''64b000000000000000000a01'' town_voted = (Inl r, town_voted)
            \<and> delete_conflict r"
    by blast
  from inst [where now = 50
            and body = "[(''message'', JString ''Election deleted successfully''),
                         (''deletedElectionId'', JString ''64b000000000000000000a01''),
                         (''deletedVotesCount'', JNumber 3)]"
            and s' = "town \<lparr> elections := [] \<rparr>"]
    town_voted_deleted
  obtain e0 where
    found: "Election_findById ''64b000000000000000000a01'' town_voted = Some e0" and
    up: "currentStatus 50 (startDate e0) (endDate e0) = ''upcoming''" and
    steps: "delete_cascade ''64b000000000000000000a01'' town_voted =
               (length (filter (\<lambda>v. vote_election v = ObjectId ''64b000000000000000000a01'')
                         (votes town_voted)),
                town_voted \<lparr> votes := filter
                    (\<lambda>v. vote_election v \<noteq> ObjectId ''64b000000000000000000a01'')
                    (votes town_voted) \<rparr>,
                Some e0, town \<lparr> elections := [] \<rparr>)"
    by blast
  from found mayor_found_voted have e0: "e0 = mayor"
    by simp
  have mid: "elections (fst (snd (delete_cascade ''64b000000000000000000a01'' town_voted)))
               = [mayor]"
    "votes (fst (snd (delete_cascade ''64b000000000000000000a01'' town_voted))) = []"
    by (simp_all add: steps) (simp_all add: town_voted_def town_def id_simps ballot_def)
  from active completed town_voted_deleted up status mid show ?thesis
    by (simp add: e0)
qed

lemma election_id_apply_update: "election_id (apply_update d e) = election_id e"
  by (simp add: apply_update_def)

lemma findByIdAndUpdate_result:
  "Election_findByIdAndUpdate eid d s =
     (map_option (apply_update d) (Election_findById eid s),
      s \<lparr> elections := replace_election (ObjectId eid) (apply_update d) (elections s) \<rparr>)"
  by (simp add: Election_findByIdAndUpdate_def Election_findById_def Let_def
        find_replace_election election_id_apply_update)

lemma update_election_conflict:
  assumes "ObjectId_isValid (u_id rq)" and "Election_findById (u_id rq) s = Some e"
    and "(currentStatus now (startDate e) (endDate e) = ''active''
         \<or> currentStatus now (startDate e) (endDate e) = ''completed'')"
  shows "\<exists>r. update_election gen now rq s = (Inl r, s) \<and> update_conflict r"
  using assms
  by (auto simp: update_election_def currentStatus_def update_conflict_def split: if_splits)

lemma update_election_success:
  assumes "update_election gen now rq s = (Inr e', s')"
  shows "\<exists>e start finish d.
           Election_findById (u_id rq) s = Some e
           \<and> now < startDate e
           \<and> new_Date (u_startDate rq) = Some start \<and> new_Date (u_endDate rq) = Some finish
           \<and> start < finish
           \<and> (case u_candidates rq of None \<Rightarrow> True | Some cs \<Rightarrow> 2 \<le> length cs)
           \<and> d = \<lparr> ud_title = u_title rq, ud_description = u_description rq,
                    ud_startDate = start, ud_endDate = finish,
                    ud_candidates = map_option (update_candidates gen 0) (u_candidates rq) \<rparr>
           \<and> e' = apply_update d e
           \<and> s' = s \<lparr> elections :=
                         replace_election (ObjectId (u_id rq)) (apply_update d) (elections s) \<rparr>"
  using assms
  by (auto simp: update_election_def findByIdAndUpdate_result validate_candidates_def
      split: if_splits option.splits prod.splits)

lemma map_candidates_replace:
  assumes "\<And>e. candidates (f e) = candidates e"
  shows "map candidates (replace_election k f es) = map candidates es"
  using assms by (induction es) auto

lemma update_election_store:
  "snd (update_election gen now rq s) = s
   \<or> snd (update_election gen now rq s)
       = s \<lparr> elections :=
               replace_election (ObjectId (u_id rq))
                 (apply_update
                    \<lparr> ud_title = u_title rq, ud_description = u_description rq,
                      ud_startDate = the (new_Date (u_startDate rq)),
                      ud_endDate = the (new_Date (u_endDate rq)),
                      ud_candidates = map_option (update_candidates gen 0) (u_candidates rq) \<rparr>)
                 (elections s) \<rparr>"
  by (auto simp: update_election_def findByIdAndUpdate_result
      split: if_splits option.splits prod.splits)

lemma update_election_frame:
  assumes "u_candidates rq = None"
  shows "map candidates (elections (snd (update_election gen now rq s)))
           = map candidates (elections s)"
proof -
  have "candidates (apply_update d e) = candidates e" if "ud_candidates d = None" for d e
    using that by (simp add: apply_update_def)
  then show ?thesis
    using update_election_store [of gen now rq s] assms
    by (auto simp: map_candidates_replace)
qed

text \<open>
  C6.  Update, asked for a stored election whose effective status is active or
  completed, answers with the 400 "Cannot update an active election" or "Cannot update a
  completed election" and changes nothing.  When a request without a
  candidate list succeeds, the election it returns and stores is the stored one with
  at most its title, description, start date and end date changed; its candidates are
  the stored ones, and the votes and users are as before.  Whatever the answer to a
  request without a candidate list, the candidates of all stored elections are as before.
\<close>

theorem update_only_while_upcoming_keeps_candidates:
  "(ObjectId_isValid (u_id rq) \<and> Election_findById (u_id rq) s = Some e
      \<and> (currentStatus now (startDate e) (endDate e) = ''active''
         \<or> currentStatus now (startDate e) (endDate e) = ''completed'')
    \<longrightarrow> (\<exists>r. update_election gen now rq s = (Inl r, s) \<and> update_conflict r))
   \<and> (u_candidates rq = None \<and> update_election gen now rq s = (Inr e', s')
    \<longrightarrow> (\<exists>e t d a b.
          Election_findById (u_id rq) s = Some e
          \<and> e' = e \<lparr> title := t, description := d, startDate := a, endDate := b \<rparr>
          \<and> candidates e' = candidates e
          \<and> Election_findById (u_id rq) s' = Some e'
          \<and> votes s' = votes s \<and> users s' = users s))
   \<and> (u_candidates rq = None
    \<longrightarrow> map candidates (elections (snd (update_election gen now rq s)))
          = map candidates (elections s))"
proof (intro conjI impI)
  assume "ObjectId_isValid (u_id rq) \<and> Election_findById (u_id rq) s = Some e
      \<and> (currentStatus now (startDate e) (endDate e) = ''active''
         \<or> currentStatus now (startDate e) (endDate e) = ''completed'')"
  then show "\<exists>r. update_election gen now rq s = (Inl r, s) \<and> update_conflict r"
    using update_election_conflict by blast
next
  assume a: "u_candidates rq = None \<and> update_election gen now rq s = (Inr e', s')"
  then have upd: "update_election gen now rq s = (Inr e', s')" and none: "u_candidates rq = None"
    by simp_all
  from update_election_success [OF upd] obtain e0 start finish d where
    e0: "Election_findById (u_id rq) s = Some e0" and
    dd: "d = \<lparr> ud_title = u_title rq, ud_description = u_description rq,
                    ud_startDate = start, ud_endDate = finish,
                    ud_candidates = map_option (update_candidates gen 0) (u_candidates rq) \<rparr>" and
    e': "e' = apply_update d e0" and
    s': "s' = s \<lparr> elections :=
                    replace_election (ObjectId (u_id rq)) (apply_update d) (elections s) \<rparr>"
    by blast
  have d: "ud_candidates d = None"
    using none by (simp add: dd)
  have "Election_findById (u_id rq) s' = Some e'"
    using e0 unfolding s' e'
    by (simp add: Election_findById_def find_replace_election election_id_apply_update)
  moreover have "e' = e0 \<lparr> title := title e', description := description e',
                   startDate := startDate e', endDate := endDate e' \<rparr>"
    unfolding e' using d by (simp add: apply_update_def)
  moreover have "candidates e' = candidates e0"
    unfolding e' using d by (simp add: apply_update_def)
  ultimately show "\<exists>e t d a b.
          Election_findById (u_id rq) s = Some e
          \<and> e' = e \<lparr> title := t, description := d, startDate := a, endDate := b \<rparr>
          \<and> candidates e' = candidates e
          \<and> Election_findById (u_id rq) s' = Some e'
          \<and> votes s' = votes s \<and> users s' = users s"
    using e0 unfolding s' by auto
next
  assume "u_candidates rq = None"
  then show "map candidates (elections (snd (update_election gen now rq s)))
          = map candidates (elections s)"
    by (rule update_election_frame)
qed

lemma trim_sample: "trim ''Mayor 2025'' = ''Mayor 2025''"
proof -
  have front: "leading white_spaces ''Mayor 2025'' = None"
    by (simp add: leading_def white_spaces_def)
  have rear: "leading (map rev white_spaces) ''5202 royaM'' = None"
    by (simp add: leading_def white_spaces_def)
  have "strip white_spaces ''Mayor 2025'' = ''Mayor 2025''"
    by (simp add: strip.simps [of white_spaces "''Mayor 2025''"] front)
  moreover have "strip (map rev white_spaces) ''5202 royaM'' = ''5202 royaM''"
    by (simp add: strip.simps [of "map rev white_spaces" "''5202 royaM''"] rear)
  ultimately show ?thesis
    by (simp add: trim_def)
qed

lemma reschedule_done:
  "update_election gen 50 reschedule town_voted
     = (Inr (mayor \<lparr> title := ''Mayor 2025'', startDate := 300, endDate := 400 \<rparr>),
        town_voted \<lparr> elections :=
          [mayor \<lparr> title := ''Mayor 2025'', startDate := 300, endDate := 400 \<rparr>] \<rparr>)"
proof -
  have dates: "startDate mayor = 100" "endDate mayor = 200"
    and ident: "election_id mayor = ''64b000000000000000000a01''"
    by (simp_all add: mayor_def)
  have found: "Election_findById (u_id reschedule) town_voted = Some mayor"
    and valid: "ObjectId_isValid (u_id reschedule)"
    by (simp_all add: reschedule_def mayor_found_voted mayor_id_valid)
  have fields: "u_title reschedule = Some ''Mayor 2025''" "u_description reschedule = None"
    "u_startDate reschedule = Timestamp 300" "u_endDate reschedule = Timestamp 400"
    "u_candidates reschedule = None"
    by (simp_all add: reschedule_def)
  have stored: "elections town_voted = [mayor]"
    by (simp add: town_voted_def town_def)
  have key: "ObjectId (u_id reschedule) = ''64b000000000000000000a01''"
    by (simp add: reschedule_def id_simps)
  show ?thesis
    by (simp add: update_election_def valid found dates fields findByIdAndUpdate_result
          stored key ident apply_update_def trim_sample)
qed

theorem update_only_while_upcoming_keeps_candidates_witness:
  "(\<exists>r. update_election sample_gen 150 reschedule town_voted = (Inl r, town_voted)
        \<and> update_conflict r)
   \<and> update_election sample_gen 50 reschedule town_voted
     = (Inr (mayor \<lparr> title := ''Mayor 2025'', startDate := 300, endDate := 400 \<rparr>),
        town_voted \<lparr> elections :=
          [mayor \<lparr> title := ''Mayor 2025'', startDate := 300, endDate := 400 \<rparr>] \<rparr>)
   \<and> candidates (mayor \<lparr> title := ''Mayor 2025'', startDate := 300, endDate := 400 \<rparr>)
       = [jane, michael]"
proof -
  have found: "Election_findById (u_id reschedule) town_voted = Some mayor"
    and valid: "ObjectId_isValid (u_id reschedule)" and none: "u_candidates reschedule = None"
    by (simp_all add: reschedule_def mayor_found_voted mayor_id_valid)
  have active: "currentStatus 150 (startDate mayor) (endDate mayor) = ''active''"
    by (simp add: currentStatus_def mayor_def)
  note inst = update_only_while_upcoming_keeps_candidates
         [where rq = reschedule and s = town_voted and e = mayor and gen = sample_gen]
  from inst [where now = 150] found valid active
  have conflict: "\<exists>r. update_election sample_gen 150 reschedule town_voted = (Inl r, town_voted)
        \<and> update_conflict r"
    by blast
  from inst [where now = 50
      and e' = "mayor \<lparr> title := ''Mayor 2025'', startDate := 300, endDate := 400 \<rparr>"
      and s' = "town_voted \<lparr> elections :=
          [mayor \<lparr> title := ''Mayor 2025'', startDate := 300, endDate := 400 \<rparr>] \<rparr>"]
    none reschedule_done [of sample_gen] found
  have "candidates (mayor \<lparr> title := ''Mayor 2025'', startDate := 300, endDate := 400 \<rparr>)
          = candidates mayor"
    by auto
  with conflict reschedule_done [of sample_gen] show ?thesis
    by (simp add: mayor_def)
qed

lemma update_election_needs_dates:
  assumes "new_Date (u_startDate rq) = None \<or> new_Date (u_endDate rq) = None"
  shows "\<exists>r. update_election gen now rq s = (Inl r, s)"
  using assms
  by (auto simp: update_election_def split: if_splits option.splits)

lemma update_election_invalid_date:
  assumes "new_Date (u_startDate rq) = None \<or> new_Date (u_endDate rq) = None"
    and "ObjectId_isValid (u_id rq)" and "Election_findById (u_id rq) s = Some e"
    and "now < startDate e" and "startDate e < endDate e"
  shows "update_election gen now rq s = (Inl invalid_date_format, s)"
  using assms
  by (auto simp: update_election_def invalid_date_format_def split: if_splits option.splits)

text \<open>
  C10, as stated, fails: the status checks come before the dates are looked at.  A
  request without dates for an election that is active is answered "Cannot update an
  active election", not "Invalid date format".
\<close>

theorem missing_dates_on_active_election:
  "update_election sample_gen 150 retitle town
     = (Inl \<lparr> http_status = 400, message = ''Cannot update an active election'' \<rparr>, town)
   \<and> u_startDate retitle = Omitted \<and> u_endDate retitle = Omitted
   \<and> \<lparr> http_status = 400, message = ''Cannot update an active election'' \<rparr>
       \<noteq> invalid_date_format"
proof -
  have dates: "startDate mayor = 100" "endDate mayor = 200"
    by (simp_all add: mayor_def)
  have "Election_findById (u_id retitle) town = Some mayor" "ObjectId_isValid (u_id retitle)"
    by (simp_all add: retitle_def mayor_found mayor_id_valid)
  then have "update_election sample_gen 150 retitle town
     = (Inl \<lparr> http_status = 400, message = ''Cannot update an active election'' \<rparr>, town)"
    by (simp add: update_election_def dates)
  then show ?thesis
    by (simp add: retitle_def invalid_date_format_def)
qed

lemma update_election_without_dates:
  assumes "new_Date (u_startDate rq) = None \<or> new_Date (u_endDate rq) = None"
  shows "update_election gen now rq s =
     (Inl (if \<not> ObjectId_isValid (u_id rq)
           then \<lparr> http_status = 400, message = ''Invalid election ID format'' \<rparr>
           else case Election_findById (u_id rq) s of
             None \<Rightarrow> \<lparr> http_status = 404, message = ''Election not found'' \<rparr>
           | Some e \<Rightarrow>
               if now > endDate e
               then \<lparr> http_status = 400, message = ''Cannot update a completed election'' \<rparr>
               else if now \<ge> startDate e
               then \<lparr> http_status = 400, message = ''Cannot update an active election'' \<rparr>
               else invalid_date_format), s)"
  using assms
  by (auto simp: update_election_def invalid_date_format_def split: if_splits option.splits)

text \<open>
  C10, amended.  A request that omits the start date or the end date never succeeds and
  leaves everything unchanged.  It is answered with the 400 "Invalid election ID format"
  when the identifier is malformed, with the 404 "Election not found" when no election
  has the identifier, with the 400 "Cannot update a completed election" when now is
  after the end date of the election, with the 400 "Cannot update an active election"
  when now is from its start date to its end date, and otherwise, which is for a stored
  election that has not started, with the 400 "Invalid date format".
\<close>

theorem dates_required_on_update:
  "(u_startDate rq = Omitted \<or> u_endDate rq = Omitted
      \<longrightarrow> update_election gen now rq s =
           (Inl (if \<not> ObjectId_isValid (u_id rq)
                 then \<lparr> http_status = 400, message = ''Invalid election ID format'' \<rparr>
                 else case Election_findById (u_id rq) s of
                   None \<Rightarrow> \<lparr> http_status = 404, message = ''Election not found'' \<rparr>
                 | Some e \<Rightarrow>
                     if now > endDate e
                     then \<lparr> http_status = 400,
                            message = ''Cannot update a completed election'' \<rparr>
                     else if now \<ge> startDate e
                     then \<lparr> http_status = 400,
                            message = ''Cannot update an active election'' \<rparr>
                     else \<lparr> http_status = 400, message = ''Invalid date format'' \<rparr>), s))
   \<and> ((u_startDate rq = Omitted \<or> u_endDate rq = Omitted)
        \<and> ObjectId_isValid (u_id rq) \<and> Election_findById (u_id rq) s = Some e
        \<and> now < startDate e \<and> startDate e < endDate e
      \<longrightarrow> update_election gen now rq s = (Inl invalid_date_format, s))"
proof (intro conjI impI)
  assume "u_startDate rq = Omitted \<or> u_endDate rq = Omitted"
  then have "new_Date (u_startDate rq) = None \<or> new_Date (u_endDate rq) = None"
    by auto
  from update_election_without_dates [OF this, of gen now s]
  show "update_election gen now rq s =
           (Inl (if \<not> ObjectId_isValid (u_id rq)
                 then \<lparr> http_status = 400, message = ''Invalid election ID format'' \<rparr>
                 else case Election_findById (u_id rq) s of
                   None \<Rightarrow> \<lparr> http_status = 404, message = ''Election not found'' \<rparr>
                 | Some e \<Rightarrow>
                     if now > endDate e
                     then \<lparr> http_status = 400,
                            message = ''Cannot update a completed election'' \<rparr>
                     else if now \<ge> startDate e
                     then \<lparr> http_status = 400,
                            message = ''Cannot update an active election'' \<rparr>
                     else \<lparr> http_status = 400, message = ''Invalid date format'' \<rparr>), s)"
    unfolding invalid_date_format_def .
next
  assume a: "(u_startDate rq = Omitted \<or> u_endDate rq = Omitted)
        \<and> ObjectId_isValid (u_id rq) \<and> Election_findById (u_id rq) s = Some e
        \<and> now < startDate e \<and> startDate e < endDate e"
  then have "new_Date (u_startDate rq) = None \<or> new_Date (u_endDate rq) = None"
    by auto
  with a show "update_election gen now rq s = (Inl invalid_date_format, s)"
    using update_election_invalid_date [of rq s e now gen] by blast
qed

theorem dates_required_on_update_witness:
  "update_election sample_gen 50 retitle town = (Inl invalid_date_format, town)
   \<and> update_election sample_gen 150 retitle town
       = (Inl \<lparr> http_status = 400, message = ''Cannot update an active election'' \<rparr>, town)
   \<and> update_election sample_gen 50 (retitle \<lparr> u_id := ''nonsense'' \<rparr>) town
       = (Inl \<lparr> http_status = 400, message = ''Invalid election ID format'' \<rparr>, town)
   \<and> update_election sample_gen 50 (retitle \<lparr> u_id := ''64b000000000000000000a02'' \<rparr>) town
       = (Inl \<lparr> http_status = 404, message = ''Election not found'' \<rparr>, town)
   \<and> u_startDate retitle = Omitted
   \<and> currentStatus 50 (startDate mayor) (endDate mayor) = ''upcoming''"
proof -
  have found: "Election_findById (u_id retitle) town = Some mayor"
    and valid: "ObjectId_isValid (u_id retitle)" and omitted: "u_startDate retitle = Omitted"
    by (simp_all add: retitle_def mayor_found mayor_id_valid)
  have dates: "50 < startDate mayor" "startDate mayor < endDate mayor"
    "startDate mayor = 100" "endDate mayor = 200"
    by (simp_all add: mayor_def)
  have bad: "\<not> ObjectId_isValid ''nonsense''"
    by (simp add: id_simps)
  have other: "ObjectId_isValid ''64b000000000000000000a02''"
    "Election_findById ''64b000000000000000000a02'' town = None"
    by (simp_all add: id_simps Election_findById_def town_def mayor_def)
  note inst = dates_required_on_update [where s = town and e = mayor and gen = sample_gen]
  from inst [where rq = retitle and now = 50] found valid omitted dates
  have a: "update_election sample_gen 50 retitle town = (Inl invalid_date_format, town)"
    by blast
  from inst [where rq = retitle and now = 150] omitted
  have b: "update_election sample_gen 150 retitle town
       = (Inl \<lparr> http_status = 400, message = ''Cannot update an active election'' \<rparr>, town)"
    by (simp add: found valid dates)
  from inst [where rq = "retitle \<lparr> u_id := ''nonsense'' \<rparr>" and now = 50] omitted bad
  have c: "update_election sample_gen 50 (retitle \<lparr> u_id := ''nonsense'' \<rparr>) town
       = (Inl \<lparr> http_status = 400, message = ''Invalid election ID format'' \<rparr>, town)"
    by simp
  from inst [where rq = "retitle \<lparr> u_id := ''64b000000000000000000a02'' \<rparr>" and now = 50]
    omitted other
  have d: "update_election sample_gen 50 (retitle \<lparr> u_id := ''64b000000000000000000a02'' \<rparr>) town
       = (Inl \<lparr> http_status = 404, message = ''Election not found'' \<rparr>, town)"
    by simp
  from a b c d omitted dates show ?thesis
    by (simp add: currentStatus_def)
qed

section \<open>What Create and Update store\<close>

lemma length_update_candidates: "length (update_candidates gen i cs) = length cs"
  by (induction cs arbitrary: i) auto

lemma create_election_well_formed:
  assumes "create_election gen eid admin now rq s = (Inr e, s')"
  shows "well_formed e \<and> elections s' = elections s @ [e]"
  using assms
  by (auto simp: create_election_def validate_candidates_def Election_save_def well_formed_def
        length_update_candidates Let_def
      split: option.splits if_splits sum.splits db_error.splits)

lemma update_election_well_formed:
  assumes "update_election gen now rq s = (Inr e', s')"
    and "\<forall>e \<in> set (elections s). well_formed e"
  shows "\<forall>e \<in> set (elections s'). well_formed e"
proof -
  from update_election_success [OF assms(1)] obtain e0 start finish d where
    e0: "Election_findById (u_id rq) s = Some e0" and
    order: "start < finish" and
    two: "case u_candidates rq of None \<Rightarrow> True | Some cs \<Rightarrow> 2 \<le> length cs" and
    dd: "d = \<lparr> ud_title = u_title rq, ud_description = u_description rq,
                    ud_startDate = start, ud_endDate = finish,
                    ud_candidates = map_option (update_candidates gen 0) (u_candidates rq) \<rparr>" and
    s': "s' = s \<lparr> elections :=
                    replace_election (ObjectId (u_id rq)) (apply_update d) (elections s) \<rparr>"
    by blast
  have "well_formed (apply_update d e)" if "well_formed e" for e
    using that order two unfolding dd
    by (auto simp: well_formed_def apply_update_def length_update_candidates
          split: option.splits)
  then show ?thesis
    using assms(2) set_replace_election [of "ObjectId (u_id rq)" "apply_update d" "elections s"]
    unfolding s' by auto
qed

section \<open>Accounts\<close>

lemma User_validate_age:
  assumes "rg_age rq = Some a" and "\<not> (18 \<le> a \<and> a \<le> 120)"
  shows "\<exists>p. User_validate rq = Some (ValidationError p)"
  using assms by (auto simp: User_validate_def User_age_valid_def)

lemma User_save_age:
  assumes "rg_age rq = Some a" and "\<not> (18 \<le> a \<and> a \<le> 120)"
  shows "\<exists>p. User_save hash uid rq s = Inl (ValidationError p)"
  using User_validate_age [OF assms] by (auto simp: User_save_def)

lemma User_save_Inr:
  assumes "User_save hash uid rq s = Inr s'"
  shows "\<exists>a. rg_age rq = Some a \<and> 18 \<le> a \<and> a \<le> 120
           \<and> s' = s \<lparr> users := users s @ [new_User hash uid rq a] \<rparr>"
  using assms
  by (auto simp: User_save_def User_validate_def User_age_valid_def
      split: option.splits if_splits)

lemma register_success:
  assumes "register hash uid rq s = (Inr r, s')"
  shows "\<exists>u. users s' = users s @ [u] \<and> Some (age u) = rg_age rq
           \<and> 18 \<le> age u \<and> age u \<le> 120"
proof -
  from assms have "User_save hash uid rq s = Inr s'"
    by (auto simp: register_def split: if_splits sum.splits)
  from User_save_Inr [OF this] show ?thesis
    by (auto simp: new_User_def)
qed

lemma update_profile_rejects_age:
  assumes "p_age rq = Some a" and "\<not> (18 \<le> a \<and> a \<le> 120)"
  shows "\<exists>r. update_profile uid rq s = (Inl r, s) \<and> http_status r = 400"
  using assms
  by (auto simp: update_profile_def User_update_validate_def User_age_valid_def)

lemma update_profile_success:
  assumes "update_profile uid rq s = (Inr u', s')"
  shows "users s' = replace_user uid (apply_profile rq) (users s)
         \<and> (case p_age rq of None \<Rightarrow> True | Some a \<Rightarrow> 18 \<le> a \<and> a \<le> 120)"
  using assms
  by (auto simp: update_profile_def User_update_validate_def User_age_valid_def
      split: if_splits option.splits db_error.splits)

lemma update_profile_keeps_ages:
  assumes "update_profile uid rq s = (Inr u', s')"
    and "\<forall>u \<in> set (users s). 18 \<le> age u \<and> age u \<le> 120"
  shows "\<forall>u \<in> set (users s'). 18 \<le> age u \<and> age u \<le> 120"
proof
  fix u assume "u \<in> set (users s')"
  with update_profile_success [OF assms(1)]
    set_replace_user [of uid "apply_profile rq" "users s"]
  have "u \<in> set (users s) \<or> u \<in> apply_profile rq ` set (users s)"
    and ok: "case p_age rq of None \<Rightarrow> True | Some a \<Rightarrow> 18 \<le> a \<and> a \<le> 120"
    by auto
  then show "18 \<le> age u \<and> age u \<le> 120"
    using assms(2) by (auto simp: apply_profile_def split: option.splits)
qed

lemma register_answers:
  "register hash uid rq s =
     (Inl \<lparr> http_status = 400,
            message = ''User with this email or voter ID already exists'' \<rparr>, s)
   \<or> register hash uid rq s =
     (Inl \<lparr> http_status = 500, message = ''Server error during registration'' \<rparr>, s)
   \<or> (\<exists>s'. User_save hash uid rq s = Inr s'
         \<and> register hash uid rq s =
           (Inr \<lparr> http_status = 201,
                  message = ''Registration successful! Please check your email to verify your account.'' \<rparr>,
            s'))"
  by (simp add: register_def split: sum.splits)

lemma register_save_failed:
  assumes "\<not> list_ex (\<lambda>u. email u = rg_email rq \<or> voterID u = rg_voterID rq) (users s)"
    and "User_save hash uid rq s = Inl err"
  shows "register hash uid rq s =
     (Inl \<lparr> http_status = 500, message = ''Server error during registration'' \<rparr>, s)"
  using assms by (simp add: register_def)

lemma town_users: "users town = [admin_user, john, robert]"
  by (simp add: town_def)

lemma newcomer_registered:
  "register sample_hash ''64b000000000000000000e09'' (newcomer 25) town
     = (Inr \<lparr> http_status = 201,
              message = ''Registration successful! Please check your email to verify your account.'' \<rparr>,
        town \<lparr> users := [admin_user, john, robert,
                         new_User sample_hash ''64b000000000000000000e09'' (newcomer 25) 25] \<rparr>)"
  by (simp add: register_def User_save_def User_validate_def User_age_valid_def town_users
        newcomer_def admin_user_def john_def robert_def)

text \<open>
  C7: the code breaks the claim in the answer of Register.  A registration with age 17,
  whose email and voter identifier nobody has, stores nothing, but it is not answered
  with a validation error: the handler of \<open>POST /register\<close> checks no age, the
  validation error comes from \<open>save()\<close>, and the \<open>catch\<close> answers every error with 500
  "Server error during registration".  The same registration with age 25 is accepted.
  The handler of \<open>PUT /profile\<close> answers age 17 with 400 "Age must be between 18 and
  120", and its \<open>catch\<close> answers a validation error of the update with 400.
\<close>

theorem register_invalid_age_is_server_error:
  "rg_age (newcomer 17) = Some 17
   \<and> \<not> list_ex (\<lambda>u. email u = rg_email (newcomer 17) \<or> voterID u = rg_voterID (newcomer 17))
          (users town)
   \<and> User_save sample_hash ''64b000000000000000000e09'' (newcomer 17) town
       = Inl (ValidationError ''age'')
   \<and> register sample_hash ''64b000000000000000000e09'' (newcomer 17) town
       = (Inl \<lparr> http_status = 500, message = ''Server error during registration'' \<rparr>, town)
   \<and> register sample_hash ''64b000000000000000000e09'' (newcomer 25) town
       = (Inr \<lparr> http_status = 201,
                message = ''Registration successful! Please check your email to verify your account.'' \<rparr>,
          town \<lparr> users := [admin_user, john, robert,
                           new_User sample_hash ''64b000000000000000000e09'' (newcomer 25) 25] \<rparr>)
   \<and> update_profile ''64b000000000000000000e01'' (new_age 17) town
       = (Inl \<lparr> http_status = 400, message = ''Age must be between 18 and 120'' \<rparr>, town)
   \<and> update_profile ''64b000000000000000000e01'' (new_age 0) town
       = (Inl \<lparr> http_status = 400, message = ''age'' \<rparr>, town)"
proof -
  have fresh: "\<not> list_ex (\<lambda>u. email u = rg_email (newcomer 17)
                              \<or> voterID u = rg_voterID (newcomer 17)) (users town)"
    by (simp add: town_users newcomer_def admin_user_def john_def robert_def)
  have young: "User_save sample_hash ''64b000000000000000000e09'' (newcomer 17) town
     = Inl (ValidationError ''age'')"
    by (simp add: User_save_def User_validate_def User_age_valid_def newcomer_def)
  have refused: "register sample_hash ''64b000000000000000000e09'' (newcomer 17) town
     = (Inl \<lparr> http_status = 500, message = ''Server error during registration'' \<rparr>, town)"
    using fresh young by (rule register_save_failed)
  have profile: "update_profile ''64b000000000000000000e01'' (new_age 17) town
     = (Inl \<lparr> http_status = 400, message = ''Age must be between 18 and 120'' \<rparr>, town)"
    by (simp add: update_profile_def new_age_def)
  have zero: "update_profile ''64b000000000000000000e01'' (new_age 0) town
     = (Inl \<lparr> http_status = 400, message = ''age'' \<rparr>, town)"
    by (simp add: update_profile_def new_age_def User_update_validate_def User_age_valid_def
          town_users)
  have "rg_age (newcomer 17) = Some 17"
    by (simp add: newcomer_def)
  with fresh young refused newcomer_registered profile zero show ?thesis
    by blast
qed

lemma deactivate_voter_spares_admins:
  assumes "u \<in> set (users s)" and "role u = ''admin''"
  shows "u \<in> set (users (snd (deactivate_voter vid s)))"
proof -
  have keep: "u \<in> set (replace_user k f us)"
    if "u \<in> set us" and "find (\<lambda>x. user_id x = k) us = Some x" and "role x \<noteq> ''admin''"
    for k f us x
    using that assms(2) by (induction us) (auto split: if_splits)
  show ?thesis
    using assms(1) keep
    by (auto simp: deactivate_voter_def User_findById_def split: option.splits)
qed

text \<open>
  C8: the code breaks the claim.  The administrator's own request to \<open>POST /deactivate\<close>
  succeeds and clears the active flag of the administrator's account; the handler never
  looks at the role, while the handler of \<open>POST /voters/:id/deactivate\<close> refuses the same
  account with 403.
\<close>

theorem self_deactivation_clears_admin:
  "role admin_user = ''admin'' \<and> isActive admin_user
   \<and> deactivate_self ''64b000000000000000000d01'' town
       = (Inr \<lparr> http_status = 200, message = ''Account has been Deleted successfully'' \<rparr>,
          town \<lparr> users := [admin_user \<lparr> isActive := False \<rparr>, john, robert] \<rparr>)
   \<and> deactivate_voter ''64b000000000000000000d01'' town
       = (Inl \<lparr> http_status = 403, message = ''Cannot delete admin accounts'' \<rparr>, town)"
proof -
  have ident: "user_id admin_user = ''64b000000000000000000d01''"
    and admin: "role admin_user = ''admin''" "isActive admin_user"
    by (simp_all add: admin_user_def)
  have valid: "ObjectId_isValid ''64b000000000000000000d01''"
    and key: "ObjectId ''64b000000000000000000d01'' = ''64b000000000000000000d01''"
    by (simp_all add: id_simps)
  have self: "deactivate_self ''64b000000000000000000d01'' town
       = (Inr \<lparr> http_status = 200, message = ''Account has been Deleted successfully'' \<rparr>,
          town \<lparr> users := [admin_user \<lparr> isActive := False \<rparr>, john, robert] \<rparr>)"
    by (simp add: deactivate_self_def User_findById_def town_users ident)
  have other: "deactivate_voter ''64b000000000000000000d01'' town
       = (Inl \<lparr> http_status = 403, message = ''Cannot delete admin accounts'' \<rparr>, town)"
    by (simp add: deactivate_voter_def valid key User_findById_def town_users ident admin)
  from admin self other show ?thesis
    by simp
qed










end
